theory Spec2Isabelle
  imports Complex_Main "HOL-Library.Word"
begin

section \<open>Data model of the CleanStream audio filter\<close>

text \<open>
  The development follows \<^verbatim>\<open>src/cleanstream-filter.cpp\<close>. Machine integers keep
  their widths: \<^verbatim>\<open>uint32_t\<close> is a 32-bit word, \<^verbatim>\<open>uint64_t\<close> and \<^verbatim>\<open>size_t\<close>
  are 64-bit words, so that every sum, difference and product wraps as in the program.
\<close>

type_synonym u32 = "32 word"
type_synonym u64 = "64 word"
type_synonym size_t = "64 word"

text \<open>\<^verbatim>\<open>struct cleanstream_audio_info\<close>: the framing of one audio packet.\<close>

record cleanstream_audio_info =
  frames :: u32
  timestamp :: u64

text \<open>
  The four per-channel arrays of \<^verbatim>\<open>struct cleanstream_data\<close>
  (\<^verbatim>\<open>copy_buffers[c]\<close>, \<^verbatim>\<open>copy_output_buffers[c]\<close>, \<^verbatim>\<open>input_buffers[c]\<close>,
  \<^verbatim>\<open>output_buffers[c]\<close>) are kept as one record per channel \<open>c\<close>. A circular
  buffer of floats is the list of its queued samples, oldest first; the staging area
  \<^verbatim>\<open>copy_buffers[c]\<close> is an array of fixed length (\<^verbatim>\<open>gf->frames\<close> floats, allocated
  by \<^verbatim>\<open>cleanstream_create\<close>). Samples are values of an arbitrary type \<open>'s\<close>: the
  staging code only moves them, and writes the sample \<open>0\<close> or a tone sample.
  In the program the staging arrays of all channels are consecutive regions of one
  allocation; an access that leaves the region of its channel counts as a failure
  here. The program declares these arrays with two entries; the number of channels
  is not bounded here.
\<close>

record 's channel_buffers =
  copy_buffers :: "'s list"
  copy_output_buffers :: "'s list"
  input_buffers :: "'s list"
  output_buffers :: "'s list"

text \<open>
  \<^verbatim>\<open>struct cleanstream_data\<close>. The field \<^verbatim>\<open>frames\<close> is named \<open>gf_frames\<close> here,
  \<^verbatim>\<open>channels\<close> is the length of \<open>chans\<close>, \<^verbatim>\<open>whisper_context\<close> records whether the
  pointer is non-null, and a regular expression is \<open>None\<close> for \<^verbatim>\<open>nullptr\<close>.
\<close>

record 's cleanstream_data =
  chans :: "'s channel_buffers list"
  sample_rate :: u32
  gf_frames :: size_t
  overlap_frames :: size_t
  overlap_ms :: size_t
  last_num_frames :: size_t
  info_buffer :: "cleanstream_audio_info list"
  info_out_buffer :: "cleanstream_audio_info list"
  whisper_context :: bool
  do_silence :: bool
  vad_enabled :: bool
  detect_regex :: "string option"
  beep_regex :: "string option"
  active :: bool

datatype DetectionResult =
  DETECTION_RESULT_UNKNOWN
  | DETECTION_RESULT_SILENCE
  | DETECTION_RESULT_SPEECH
  | DETECTION_RESULT_FILLER
  | DETECTION_RESULT_BEEP

text \<open>
  What the program cannot do without failing: popping more bytes than a circular buffer
  holds (an assertion of \<^verbatim>\<open>circlebuf_pop_front\<close>), reading or writing outside the
  staging array of a channel, dividing by a zero sample rate, and reading a host packet
  that has fewer planes than the filter has channels or fewer samples than it announces.
\<close>

datatype fault = CirclebufUnderrun | CopyBufferOutOfRange | DivisionByZero | PacketOutOfRange

section \<open>High-pass pre-emphasis and voice activity detection\<close>

text \<open>
  \<^verbatim>\<open>high_pass_filter\<close> updates the buffer in place. Floating-point numbers are
  idealised as reals, so the model shows which cells the loop reads and writes, not
  the rounding of each operation. The loop variable \<open>i\<close> runs from 1 to the buffer
  size; \<open>y\<close> is the running output.
\<close>

definition hp_alpha :: "real \<Rightarrow> u32 \<Rightarrow> real" where
  "hp_alpha cutoff rate =
     (let rc = 1 / (2 * pi * cutoff);
          dt = 1 / real (unat rate)
      in dt / (rc + dt))"

function hp_loop :: "real \<Rightarrow> nat \<Rightarrow> nat \<Rightarrow> real \<Rightarrow> real list \<Rightarrow> real list" where
  "hp_loop alpha n i y pcmf32 =
     (if i < n
      then (let y' = alpha * (y + pcmf32 ! i - pcmf32 ! (i - 1))
            in hp_loop alpha n (Suc i) y' (pcmf32[i := y']))
      else pcmf32)"
  by pat_completeness auto
termination
  by (relation "measure (\<lambda>(alpha, n, i, y, pcmf32). n - i)") auto

declare hp_loop.simps [simp del]

text \<open>
  The buffer size is the length of the list. On an empty buffer the program reads
  \<^verbatim>\<open>pcmf32[0]\<close> into \<open>y\<close> and never uses it; the model returns the empty buffer.
\<close>

definition high_pass_filter :: "real list \<Rightarrow> real \<Rightarrow> u32 \<Rightarrow> real list" where
  "high_pass_filter pcmf32 cutoff rate =
     (case pcmf32 of
        [] \<Rightarrow> []
      | x0 # _ \<Rightarrow> hp_loop (hp_alpha cutoff rate) (length pcmf32) 1 x0 pcmf32)"

text \<open>
  The recurrence as the specification words it: the first sample passes through and
  \<open>y[i] = \<alpha> (y[i-1] + x[i] - x[i-1])\<close> over the original samples \<open>x\<close>. The
  arguments are the previous output, the previous input and the remaining inputs.
\<close>

fun hp_reference_from :: "real \<Rightarrow> real \<Rightarrow> real \<Rightarrow> real list \<Rightarrow> real list" where
  "hp_reference_from alpha yprev xprev [] = []"
| "hp_reference_from alpha yprev xprev (x # xs) =
     (let y = alpha * (yprev + x - xprev) in y # hp_reference_from alpha y x xs)"

definition hp_reference :: "real \<Rightarrow> real list \<Rightarrow> real list" where
  "hp_reference alpha xs =
     (case xs of [] \<Rightarrow> [] | x0 # rest \<Rightarrow> x0 # hp_reference_from alpha x0 x0 rest)"

text \<open>
  \<^verbatim>\<open>vad_simple\<close>: optional pre-emphasis, then the mean absolute amplitude against the
  threshold. With no samples the program divides \<open>0\<close> by \<open>0\<close>; the quotient is not a
  number, the comparison with the threshold is false, and speech is reported.
\<close>

definition vad_simple :: "real list \<Rightarrow> u32 \<Rightarrow> real \<Rightarrow> real \<Rightarrow> bool \<times> real list" where
  "vad_simple pcmf32 rate vad_thold freq_thold =
     (let buf = (if 0 < freq_thold then high_pass_filter pcmf32 freq_thold rate else pcmf32);
          energy_all = foldl (\<lambda>e x. e + \<bar>x\<bar>) 0 buf
      in if buf = [] then (True, buf)
         else (\<not> (energy_all / real (length buf) < vad_thold), buf))"

section \<open>The classifier\<close>

text \<open>
  The speech recogniser is outside the repository. One call of \<^verbatim>\<open>whisper_full\<close>
  either throws or returns a result code; after a zero code the text of segment 0 is
  read.
\<close>

datatype whisper_full_outcome =
  WhisperException
  | WhisperResult int string

text \<open>
  \<^verbatim>\<open>std::regex\<close> is outside the repository as well. A matcher takes a pattern and a
  text; \<open>None\<close> stands for a thrown \<^verbatim>\<open>std::regex_error\<close> (from the constructor or
  from the search), \<open>Some b\<close> for the answer of \<^verbatim>\<open>std::regex_search\<close>.
\<close>

type_synonym regex_engine = "string \<Rightarrow> string \<Rightarrow> bool option"

text \<open>\<^verbatim>\<open>::tolower\<close> and \<^verbatim>\<open>std::isspace\<close> in the C locale, on bytes.\<close>

definition tolower :: "char \<Rightarrow> char" where
  "tolower c =
     (let n = (of_char c :: nat)
      in if 65 \<le> n \<and> n \<le> 90 then char_of (n + 32) else c)"

definition isspace :: "char \<Rightarrow> bool" where
  "isspace c = ((of_char c :: nat) \<in> {32, 9, 10, 11, 12, 13})"

text \<open>
  Lower-casing, then erasing from the last non-space character to the end
  (\<^verbatim>\<open>find_if\<close> over the reversed string).
\<close>

definition lower_trim :: "string \<Rightarrow> string" where
  "lower_trim text = rev (dropWhile isspace (rev (map tolower text)))"

text \<open>
  One guarded pattern of the \<^verbatim>\<open>try\<close> block: a null or empty pattern is skipped
  (no match), otherwise the pattern is compiled and searched. The block holds both
  patterns: a thrown \<^verbatim>\<open>std::regex_error\<close> leaves it, is logged, and control reaches
  the final \<^verbatim>\<open>return DETECTION_RESULT_SPEECH\<close>.
\<close>

definition try_regex :: "regex_engine \<Rightarrow> string option \<Rightarrow> string \<Rightarrow> bool option" where
  "try_regex rx pattern text_lower =
     (case pattern of
        None \<Rightarrow> Some False
      | Some p \<Rightarrow> if 0 < length p then rx p text_lower else Some False)"

definition classify_text ::
  "regex_engine \<Rightarrow> string option \<Rightarrow> string option \<Rightarrow> string \<Rightarrow> DetectionResult" where
  "classify_text rx detect beep text_lower =
     (case try_regex rx detect text_lower of
        None \<Rightarrow> DETECTION_RESULT_SPEECH
      | Some True \<Rightarrow> DETECTION_RESULT_FILLER
      | Some False \<Rightarrow>
          (case try_regex rx beep text_lower of
             None \<Rightarrow> DETECTION_RESULT_SPEECH
           | Some True \<Rightarrow> DETECTION_RESULT_BEEP
           | Some False \<Rightarrow> DETECTION_RESULT_SPEECH))"

text \<open>
  \<^verbatim>\<open>run_whisper_inference\<close>. The PCM argument only feeds the recogniser, whose
  outcome is an argument here. The function returns the detection result and the
  filter state, which changes only when the recogniser throws (the context is freed
  and set to null).
\<close>

definition run_whisper_inference ::
  "regex_engine \<Rightarrow> 's cleanstream_data \<Rightarrow> whisper_full_outcome
     \<Rightarrow> DetectionResult \<times> 's cleanstream_data" where
  "run_whisper_inference rx gf outcome =
     (if \<not> whisper_context gf then (DETECTION_RESULT_UNKNOWN, gf)
      else case outcome of
        WhisperException \<Rightarrow> (DETECTION_RESULT_UNKNOWN, gf\<lparr>whisper_context := False\<rparr>)
      | WhisperResult whisper_full_result text \<Rightarrow>
          if whisper_full_result \<noteq> 0 then (DETECTION_RESULT_UNKNOWN, gf)
          else (let text_lower = lower_trim text
                in if text_lower = [] then (DETECTION_RESULT_SILENCE, gf)
                   else (classify_text rx (detect_regex gf) (beep_regex gf) text_lower, gf)))"

section \<open>The segment processor\<close>

text \<open>
  What one invocation takes from outside the filter state: the answer of
  \<^verbatim>\<open>vad_simple\<close> on the resampled window (the resampler is outside the repository),
  the outcome of the recogniser, and the measured wall-clock duration in
  milliseconds (a signed 64-bit count, here an integer).
\<close>

record process_env =
  vad_speech :: bool
  whisper_outcome :: whisper_full_outcome
  duration :: int

text \<open>
  The target number of new frames: the whole window the first time, the window
  less the overlap afterwards. The subtraction is on \<^verbatim>\<open>size_t\<close> and wraps.
\<close>

definition how_many_frames_needed :: "'s cleanstream_data \<Rightarrow> size_t" where
  "how_many_frames_needed gf =
     (if last_num_frames gf = 0 then gf_frames gf else gf_frames gf - overlap_frames gf)"

text \<open>
  The loop that pops packet infos. Its arguments are the queued infos, the running
  \<^verbatim>\<open>num_new_frames_from_infos\<close> (32 bits), the running \<^verbatim>\<open>start_timestamp\<close> and the
  target; it returns the infos left in the buffer and the two counters. The comparison
  promotes the 32-bit count to \<^verbatim>\<open>size_t\<close>.
\<close>

fun drain_infos ::
  "cleanstream_audio_info list \<Rightarrow> u32 \<Rightarrow> u64 \<Rightarrow> size_t
     \<Rightarrow> cleanstream_audio_info list \<times> u32 \<times> u64" where
  "drain_infos [] num ts need = ([], num, ts)"
| "drain_infos (info_from_buf # buf) num ts need =
     (let num1 = num + frames info_from_buf;
          ts1 = (if ts = 0 then timestamp info_from_buf else ts)
      in if need < ucast num1
         then (info_from_buf # buf, num1 - frames info_from_buf, ts1)
         else drain_infos buf num1 ts1 need)"

text \<open>Writing a block into an array at an offset (\<^verbatim>\<open>memcpy\<close> into the staging area).\<close>

definition write_at :: "'s list \<Rightarrow> nat \<Rightarrow> 's list \<Rightarrow> 's list" where
  "write_at buf off block = take off buf @ block @ drop (off + length block) buf"

text \<open>
  Filling one channel's staging array. After the first window the last
  \<open>overlap_frames\<close> samples of the previous window move to the head and the new
  samples are popped behind them; the very first time the new samples go to the head.
  The move is modelled as a copy of the old contents (source and destination do not
  overlap when the previous window held at least twice the overlap).
\<close>

definition pop_input_channel ::
  "size_t \<Rightarrow> size_t \<Rightarrow> u32 \<Rightarrow> 's channel_buffers \<Rightarrow> fault + 's channel_buffers" where
  "pop_input_channel prev ov num ch =
     (let cap = length (copy_buffers ch);
          n = unat num
      in if length (input_buffers ch) < n then Inl CirclebufUnderrun
         else if 0 < prev
         then (if unat prev < unat ov \<or> cap < unat prev \<or> cap < unat ov + n
               then Inl CopyBufferOutOfRange
               else Inr (ch\<lparr>copy_buffers :=
                               write_at
                                 (write_at (copy_buffers ch) 0
                                    (take (unat ov) (drop (unat prev - unat ov) (copy_buffers ch))))
                                 (unat ov) (take n (input_buffers ch)),
                             input_buffers := drop n (input_buffers ch)\<rparr>))
         else (if cap < n then Inl CopyBufferOutOfRange
               else Inr (ch\<lparr>copy_buffers := write_at (copy_buffers ch) 0 (take n (input_buffers ch)),
                             input_buffers := drop n (input_buffers ch)\<rparr>)))"

text \<open>A loop over the channels stops at the first fault.\<close>

fun collect_channels :: "(fault + 'a) list \<Rightarrow> fault + 'a list" where
  "collect_channels [] = Inr []"
| "collect_channels (r # rs) =
     (case r of
        Inl f \<Rightarrow> Inl f
      | Inr x \<Rightarrow> (case collect_channels rs of Inl f \<Rightarrow> Inl f | Inr xs \<Rightarrow> Inr (x # xs)))"

text \<open>
  The block under the input mutex: drain the infos, fill the staging arrays, and
  commit \<open>last_num_frames\<close>. It returns the new state with the number of new frames
  and the start timestamp.
\<close>

definition assemble_window ::
  "'s cleanstream_data \<Rightarrow> fault + ('s cleanstream_data \<times> u32 \<times> u64)" where
  "assemble_window gf =
     (case drain_infos (info_buffer gf) 0 0 (how_many_frames_needed gf) of
        (info_rest, num_new_frames_from_infos, start_timestamp) \<Rightarrow>
          (case collect_channels
                  (map (pop_input_channel (last_num_frames gf) (overlap_frames gf)
                          num_new_frames_from_infos) (chans gf)) of
             Inl f \<Rightarrow> Inl f
           | Inr chans1 \<Rightarrow>
               Inr (gf\<lparr>info_buffer := info_rest,
                       chans := chans1,
                       last_num_frames :=
                         (if 0 < last_num_frames gf
                          then ucast num_new_frames_from_infos + overlap_frames gf
                          else ucast num_new_frames_from_infos)\<rparr>,
                    num_new_frames_from_infos, start_timestamp)))"

text \<open>\<^verbatim>\<open>da_copy_array\<close>: the snapshot is the first \<open>last_num_frames\<close> staged samples.\<close>

definition snapshot_output :: "'s cleanstream_data \<Rightarrow> 's cleanstream_data" where
  "snapshot_output gf =
     gf\<lparr>chans :=
          map (\<lambda>ch. ch\<lparr>copy_output_buffers :=
                         take (unat (last_num_frames gf)) (copy_buffers ch)\<rparr>) (chans gf)\<rparr>"

text \<open>
  The loop \<^verbatim>\<open>for (i = lo; i < hi; i++) a[i] = f(i)\<close> on an array.
\<close>

definition assign_range :: "nat \<Rightarrow> nat \<Rightarrow> (nat \<Rightarrow> 's) \<Rightarrow> 's list \<Rightarrow> 's list" where
  "assign_range lo hi f a = foldl (\<lambda>arr i. arr[i := f i]) a [lo..<hi]"

text \<open>
  The transformation of the snapshot. \<open>first_boundary\<close> is the constant 0 of the
  program. The tone \<^verbatim>\<open>0.5f * sinf(2 \<pi> 440 i / sample_rate)\<close> is a floating-point
  computation of the index and the sample rate only, and is an argument here.
\<close>

definition transform_output ::
  "(u32 \<Rightarrow> nat \<Rightarrow> 's) \<Rightarrow> DetectionResult \<Rightarrow> u32 \<Rightarrow> ('s::zero) cleanstream_data
     \<Rightarrow> 's cleanstream_data" where
  "transform_output beep_tone inference_result num_new_frames_from_infos gf =
     (let first_boundary = 0 :: nat
      in if inference_result = DETECTION_RESULT_FILLER
         then (if do_silence gf
               then gf\<lparr>chans :=
                         map (\<lambda>ch. ch\<lparr>copy_output_buffers :=
                                        assign_range first_boundary
                                          (unat num_new_frames_from_infos) (\<lambda>i. 0)
                                          (copy_output_buffers ch)\<rparr>) (chans gf)\<rparr>
               else gf)
         else if inference_result = DETECTION_RESULT_BEEP
         then (if do_silence gf
               then gf\<lparr>chans :=
                         map (\<lambda>ch. ch\<lparr>copy_output_buffers :=
                                        assign_range first_boundary
                                          (unat num_new_frames_from_infos)
                                          (beep_tone (sample_rate gf))
                                          (copy_output_buffers ch)\<rparr>) (chans gf)\<rparr>
               else gf)
         else gf)"

text \<open>
  The block under the output mutex: one packet info, then the first
  \<open>num_new_frames_from_infos\<close> samples of each snapshot.
\<close>

definition publish_output ::
  "u32 \<Rightarrow> u64 \<Rightarrow> 's cleanstream_data \<Rightarrow> 's cleanstream_data" where
  "publish_output num_new_frames_from_infos start_timestamp gf =
     gf\<lparr>info_out_buffer :=
          info_out_buffer gf @
            [\<lparr>frames = num_new_frames_from_infos, timestamp = start_timestamp\<rparr>],
        chans :=
          map (\<lambda>ch. ch\<lparr>output_buffers :=
                         output_buffers ch @
                           take (unat num_new_frames_from_infos) (copy_output_buffers ch)\<rparr>)
              (chans gf)\<rparr>"

text \<open>
  The adaptive overlap. \<open>new_frames_from_infos_ms\<close> is computed on 32 bits, the new
  \<open>overlap_ms\<close> on 64 bits: \<open>overlap_ms - 10\<close> and \<open>overlap_ms + 10\<close> wrap. The cap
  \<^verbatim>\<open>(uint64_t)((float)new_frames_from_infos_ms * 0.75f)\<close> is three quarters of the
  duration rounded down: the floating-point product is exact for durations below
  \<open>2\<^sup>2\<^sup>4 / 3\<close> milliseconds, which covers every duration the 32-bit quotient can
  take at a sample rate of 768 Hz or more.
\<close>

definition new_frames_from_infos_ms :: "u32 \<Rightarrow> u32 \<Rightarrow> u32" where
  "new_frames_from_infos_ms num_new_frames_from_infos rate =
     num_new_frames_from_infos * 1000 div rate"

definition three_quarters_ms :: "u32 \<Rightarrow> u64" where
  "three_quarters_ms ms = of_nat (3 * unat ms div 4)"

definition adapt_overlap ::
  "int \<Rightarrow> u32 \<Rightarrow> bool \<Rightarrow> 's cleanstream_data \<Rightarrow> 's cleanstream_data" where
  "adapt_overlap dur num_new_frames_from_infos skipped_inference gf =
     (let new_ms = new_frames_from_infos_ms num_new_frames_from_infos (sample_rate gf)
      in if uint new_ms < dur
         then (let ms = max (overlap_ms gf - 10) 100
               in gf\<lparr>overlap_ms := ms,
                      overlap_frames := ms * ucast (sample_rate gf) div 1000\<rparr>)
         else if \<not> skipped_inference
         then (let ms = min (overlap_ms gf + 10) (three_quarters_ms new_ms)
               in gf\<lparr>overlap_ms := ms,
                      overlap_frames := ms * ucast (sample_rate gf) div 1000\<rparr>)
         else gf)"

text \<open>
  \<^verbatim>\<open>process_audio_from_buffer\<close>: one window. The sample rate divides in a logging
  argument right after the assembly, so a zero rate stops the program there.
\<close>

definition process_audio_from_buffer ::
  "regex_engine \<Rightarrow> (u32 \<Rightarrow> nat \<Rightarrow> 's) \<Rightarrow> process_env \<Rightarrow> ('s::zero) cleanstream_data
     \<Rightarrow> fault + 's cleanstream_data" where
  "process_audio_from_buffer rx beep_tone env gf =
     (case assemble_window gf of
        Inl f \<Rightarrow> Inl f
      | Inr (gf1, num_new_frames_from_infos, start_timestamp) \<Rightarrow>
          if sample_rate gf1 = 0 then Inl DivisionByZero
          else (let skipped_inference = (vad_enabled gf1 \<and> \<not> vad_speech env);
                    gf2 = snapshot_output gf1;
                    gf3 = (if \<not> skipped_inference
                           then (case run_whisper_inference rx gf2 (whisper_outcome env) of
                                   (inference_result, gf') \<Rightarrow>
                                     transform_output beep_tone inference_result
                                       num_new_frames_from_infos gf')
                           else gf2);
                    gf4 = publish_output num_new_frames_from_infos start_timestamp gf3
                in Inr (adapt_overlap (duration env) num_new_frames_from_infos
                          skipped_inference gf4)))"

section \<open>The worker and the audio callback\<close>

text \<open>
  The worker runs the segment processor while channel 0 holds at least one window of
  bytes (\<^verbatim>\<open>gf->frames * sizeof(float)\<close>, a \<^verbatim>\<open>size_t\<close> product).
\<close>

definition window_ready :: "'s cleanstream_data \<Rightarrow> bool" where
  "window_ready gf =
     (unat (gf_frames gf * 4)
        \<le> 4 * (case chans gf of [] \<Rightarrow> 0 | ch # _ \<Rightarrow> length (input_buffers ch)))"

text \<open>
  \<^verbatim>\<open>struct obs_audio_data\<close> of the host: planar samples, one list per channel, the
  frame count and the timestamp.
\<close>

record 's obs_audio_data =
  audio_data :: "'s list list"
  audio_frames :: u32
  audio_timestamp :: u64

datatype 's filter_audio_result =
  PassThrough
  | NoOutput
  | Output "'s obs_audio_data"

text \<open>
  \<^verbatim>\<open>cleanstream_filter_audio\<close> for a non-null packet and filter: pass-through when
  inactive or without recogniser; otherwise the packet is queued, and the oldest
  published packet, if any, is popped and returned.
\<close>

definition cleanstream_filter_audio ::
  "'s cleanstream_data \<Rightarrow> 's obs_audio_data
     \<Rightarrow> fault + ('s cleanstream_data \<times> 's filter_audio_result)" where
  "cleanstream_filter_audio gf audio =
     (if \<not> active gf then Inr (gf, PassThrough)
      else if \<not> whisper_context gf then Inr (gf, PassThrough)
      else if length (audio_data audio) < length (chans gf)
              \<or> list_ex (\<lambda>d. length d < unat (audio_frames audio))
                    (take (length (chans gf)) (audio_data audio))
      then Inl PacketOutOfRange
      else (let gf1 = gf\<lparr>chans :=
                           map (\<lambda>(ch, d). ch\<lparr>input_buffers :=
                                                input_buffers ch @ take (unat (audio_frames audio)) d\<rparr>)
                               (zip (chans gf) (audio_data audio)),
                         info_buffer :=
                           info_buffer gf @
                             [\<lparr>frames = audio_frames audio, timestamp = audio_timestamp audio\<rparr>]\<rparr>
            in case info_out_buffer gf1 of
                 [] \<Rightarrow> Inr (gf1, NoOutput)
               | info_out # rest \<Rightarrow>
                   if list_ex (\<lambda>ch. length (output_buffers ch) < unat (frames info_out)) (chans gf1)
                   then Inl CirclebufUnderrun
                   else Inr (gf1\<lparr>info_out_buffer := rest,
                                 chans := map (\<lambda>ch. ch\<lparr>output_buffers :=
                                                        drop (unat (frames info_out))
                                                          (output_buffers ch)\<rparr>)
                                              (chans gf1)\<rparr>,
                             Output \<lparr>audio_data =
                                       map (\<lambda>ch. take (unat (frames info_out)) (output_buffers ch))
                                           (chans gf1),
                                     audio_frames = frames info_out,
                                     audio_timestamp = timestamp info_out\<rparr>)))"

text \<open>
  One pass of the worker's inner loop: a window is processed when one is ready. The
  inner loop does not look at the recogniser context; the outer loop does, before the
  thread sleeps again.
\<close>

definition whisper_loop_step ::
  "regex_engine \<Rightarrow> (u32 \<Rightarrow> nat \<Rightarrow> 's) \<Rightarrow> process_env \<Rightarrow> ('s::zero) cleanstream_data
     \<Rightarrow> fault + 's cleanstream_data" where
  "whisper_loop_step rx beep_tone env gf =
     (if window_ready gf then process_audio_from_buffer rx beep_tone env gf else Inr gf)"

text \<open>
  A trace interleaves the host's packets with passes of the worker; the result is the
  final state with the packets returned to the host, in order. Each event runs as a
  whole. In the program the host callback can also run between the two locked blocks
  of the segment processor; it only appends to the input rings and pops from the front
  of the output rings.
\<close>

datatype 's trace_event = Push "'s obs_audio_data" | Worker process_env

fun run_trace ::
  "regex_engine \<Rightarrow> (u32 \<Rightarrow> nat \<Rightarrow> 's) \<Rightarrow> 's trace_event list \<Rightarrow> ('s::zero) cleanstream_data
     \<Rightarrow> 's obs_audio_data list \<Rightarrow> fault + ('s cleanstream_data \<times> 's obs_audio_data list)" where
  "run_trace rx beep_tone [] gf outs = Inr (gf, outs)"
| "run_trace rx beep_tone (Push audio # es) gf outs =
     (case cleanstream_filter_audio gf audio of
        Inl f \<Rightarrow> Inl f
      | Inr (gf', Output out) \<Rightarrow> run_trace rx beep_tone es gf' (outs @ [out])
      | Inr (gf', _) \<Rightarrow> run_trace rx beep_tone es gf' outs)"
| "run_trace rx beep_tone (Worker env # es) gf outs =
     (case whisper_loop_step rx beep_tone env gf of
        Inl f \<Rightarrow> Inl f
      | Inr gf' \<Rightarrow> run_trace rx beep_tone es gf' outs)"

section \<open>Reference notions and concrete inputs\<close>

text \<open>
  The classifier's decision chain as the specification words it, on the lower-cased
  and trimmed text: a pattern counts when it is non-empty and matches.
\<close>

definition matches_anywhere :: "regex_engine \<Rightarrow> string option \<Rightarrow> string \<Rightarrow> bool" where
  "matches_anywhere rx pattern text_lower =
     (case pattern of None \<Rightarrow> False | Some p \<Rightarrow> 0 < length p \<and> rx p text_lower = Some True)"

definition classifier_chain ::
  "regex_engine \<Rightarrow> string option \<Rightarrow> string option \<Rightarrow> string \<Rightarrow> DetectionResult" where
  "classifier_chain rx detect beep text_lower =
     (if text_lower = [] then DETECTION_RESULT_SILENCE
      else if matches_anywhere rx detect text_lower then DETECTION_RESULT_FILLER
      else if matches_anywhere rx beep text_lower then DETECTION_RESULT_BEEP
      else DETECTION_RESULT_SPEECH)"

text \<open>The 32-bit sum of the frame counts of a list of packet infos.\<close>

definition sum_frames :: "cleanstream_audio_info list \<Rightarrow> u32" where
  "sum_frames infos = sum_list (map frames infos)"

text \<open>
  A window is published unmodified when, with \<open>g1\<close> the state right after the
  assembly, the output info ring gains the packet info of the window, every snapshot
  holds the staged samples, and every output ring gains the first \<open>num\<close> samples of
  its snapshot.
\<close>

definition published_unmodified ::
  "'s cleanstream_data \<Rightarrow> u32 \<Rightarrow> u64 \<Rightarrow> 's cleanstream_data \<Rightarrow> bool" where
  "published_unmodified g1 num ts gf' =
     (info_out_buffer gf' = info_out_buffer g1 @ [\<lparr>frames = num, timestamp = ts\<rparr>]
      \<and> map copy_output_buffers (chans gf')
          = map (\<lambda>ch. take (unat (last_num_frames g1)) (copy_buffers ch)) (chans g1)
      \<and> map output_buffers (chans gf')
          = map (\<lambda>ch. output_buffers ch
                        @ take (unat num) (take (unat (last_num_frames g1)) (copy_buffers ch)))
                (chans g1))"

text \<open>
  The overlap controller over a sequence of windows, each given by the measured
  duration, the number of new frames and whether inference was skipped. The segment
  processor changes \<open>overlap_ms\<close> nowhere else.
\<close>

fun overlap_run :: "(int \<times> u32 \<times> bool) list \<Rightarrow> 's cleanstream_data \<Rightarrow> 's cleanstream_data" where
  "overlap_run [] gf = gf"
| "overlap_run ((dur, num, skipped) # ws) gf = overlap_run ws (adapt_overlap dur num skipped gf)"

text \<open>
  A stand-in for \<^verbatim>\<open>std::regex\<close> on the patterns used below: a pattern of letters
  matches where it occurs in the text, and the pattern \<^verbatim>\<open>(\<close> does not compile.
\<close>

fun contains :: "string \<Rightarrow> string \<Rightarrow> bool" where
  "contains p [] = (p = [])"
| "contains p (c # t) = (take (length p) (c # t) = p \<or> contains p t)"

definition demo_regex :: regex_engine where
  "demo_regex p t = (if p = ''('' then None else Some (contains p t))"

text \<open>The tone of the program over the reals.\<close>

definition sine_tone :: "u32 \<Rightarrow> nat \<Rightarrow> real" where
  "sine_tone rate i = 0.5 * sin (2 * pi * 440 * real i / real (unat rate))"

text \<open>
  A mono filter at 48 kHz as \<^verbatim>\<open>cleanstream_create\<close> leaves it: a window of 48480
  frames (1010 ms), an overlap of 340 ms (16320 frames), empty buffers.
\<close>

definition demo_gf :: "real cleanstream_data" where
  "demo_gf =
     \<lparr>chans = [\<lparr>copy_buffers = replicate 48480 0, copy_output_buffers = [],
                input_buffers = [], output_buffers = []\<rparr>],
      sample_rate = 48000, gf_frames = 48480, overlap_frames = 16320, overlap_ms = 340,
      last_num_frames = 0, info_buffer = [], info_out_buffer = [],
      whisper_context = True, do_silence = True, vad_enabled = False,
      detect_regex = Some ''um'', beep_regex = Some ''damn'', active = True\<rparr>"

text \<open>
  Packet number \<open>k\<close> of a stream of packets of \<open>n\<close> frames at 48 kHz: every sample
  of the packet has the value \<open>k + 1\<close>, and the timestamp counts nanoseconds from 0.
\<close>

definition demo_packet :: "nat \<Rightarrow> nat \<Rightarrow> real obs_audio_data" where
  "demo_packet n k =
     \<lparr>audio_data = [replicate n (real (k + 1))],
      audio_frames = of_nat n,
      audio_timestamp = of_nat (k * (n * 1000000 div 48))\<rparr>"

definition demo_env :: "whisper_full_outcome \<Rightarrow> int \<Rightarrow> process_env" where
  "demo_env outcome dur = \<lparr>vad_speech = True, whisper_outcome = outcome, duration = dur\<rparr>"

text \<open>
  The filter after the host has queued packets 1, 2 and 3 of 24240 frames, and the
  same filter right after the assembly of its first window (packets 1 and 2).
\<close>

definition demo_queued :: "real cleanstream_data" where
  "demo_queued =
     demo_gf\<lparr>chans := [\<lparr>copy_buffers = replicate 48480 0,
                         copy_output_buffers = [],
                         input_buffers =
                           replicate 24240 2 @ replicate 24240 3 @ replicate 24240 4,
                         output_buffers = []\<rparr>],
             info_buffer := [\<lparr>frames = 24240, timestamp = 505000000\<rparr>,
                             \<lparr>frames = 24240, timestamp = 1010000000\<rparr>,
                             \<lparr>frames = 24240, timestamp = 1515000000\<rparr>]\<rparr>"

definition demo_staged :: "real cleanstream_data" where
  "demo_staged =
     demo_gf\<lparr>chans := [\<lparr>copy_buffers = replicate 24240 2 @ replicate 24240 3,
                         copy_output_buffers = [],
                         input_buffers = replicate 24240 4,
                         output_buffers = []\<rparr>],
             last_num_frames := 48480,
             info_buffer := [\<lparr>frames = 24240, timestamp = 1515000000\<rparr>]\<rparr>"

section \<open>Evaluating the model\<close>

text \<open>
  The assignment loop over a prefix of an array replaces exactly that prefix.
\<close>

lemma assign_range_prefix:
  "hi \<le> length a \<Longrightarrow> assign_range 0 hi f a = map f [0..<hi] @ drop hi a"
proof (induction hi)
  case 0
  then show ?case by (simp add: assign_range_def)
next
  case (Suc hi)
  then have le: "hi \<le> length a" and lt: "hi < length a" by simp_all
  have "assign_range 0 (Suc hi) f a = (assign_range 0 hi f a)[hi := f hi]"
    by (simp add: assign_range_def)
  also have "\<dots> = (map f [0..<hi] @ drop hi a)[hi := f hi]"
    using Suc.IH [OF le] by simp
  also have "\<dots> = map f [0..<hi] @ (drop hi a)[0 := f hi]"
    by (simp add: list_update_append)
  also have "\<dots> = map f [0..<hi] @ f hi # drop (Suc hi) a"
    using lt by (simp add: Cons_nth_drop_Suc [symmetric])
  finally show ?case by simp
qed

lemma assign_range_zero:
  "hi \<le> length a \<Longrightarrow> assign_range 0 hi (\<lambda>i. 0) a = replicate hi 0 @ drop hi a"
  by (simp add: assign_range_prefix map_replicate_const)

lemma replicate_append_neq:
  "0 < n \<Longrightarrow> 0 < m \<Longrightarrow> x \<noteq> y \<Longrightarrow> replicate n x @ xs \<noteq> replicate m y @ ys"
  by (cases n; cases m) simp_all

lemma lower_trim_examples:
  "lower_trim [] = []"
  "lower_trim '' Um...  '' = '' um...''"
  "lower_trim ''Damn it '' = ''damn it''"
  "lower_trim ''damn'' = ''damn''"
  "lower_trim ''Hello '' = ''hello''"
  by code_simp+

lemmas eval_defs =
  demo_gf_def demo_packet_def demo_env_def cleanstream_filter_audio_def
  process_audio_from_buffer_def assemble_window_def how_many_frames_needed_def
  pop_input_channel_def write_at_def snapshot_output_def run_whisper_inference_def
  transform_output_def publish_output_def adapt_overlap_def
  new_frames_from_infos_ms_def three_quarters_ms_def whisper_loop_step_def window_ready_def
  lower_trim_examples classify_text_def try_regex_def demo_regex_def assign_range_zero

lemma demo_queued_reached:
  "run_trace demo_regex sine_tone
     [Push (demo_packet 24240 1), Push (demo_packet 24240 2), Push (demo_packet 24240 3)]
     demo_gf [] = Inr (demo_queued, [])"
  by (simp add: demo_queued_def eval_defs)

lemma demo_assemble:
  "assemble_window demo_queued = Inr (demo_staged, 48480, 505000000)"
  by (simp add: demo_queued_def demo_staged_def eval_defs)

section \<open>Facts about one window\<close>

lemma adapt_overlap_buffers:
  "chans (adapt_overlap dur num skipped gf) = chans gf"
  "info_out_buffer (adapt_overlap dur num skipped gf) = info_out_buffer gf"
  "info_buffer (adapt_overlap dur num skipped gf) = info_buffer gf"
  "whisper_context (adapt_overlap dur num skipped gf) = whisper_context gf"
  "detect_regex (adapt_overlap dur num skipped gf) = detect_regex gf"
  "beep_regex (adapt_overlap dur num skipped gf) = beep_regex gf"
  by (simp_all add: adapt_overlap_def Let_def)

lemma transform_output_other:
  "r \<noteq> DETECTION_RESULT_FILLER \<Longrightarrow> r \<noteq> DETECTION_RESULT_BEEP \<Longrightarrow>
   transform_output beep_tone r num gf = gf"
  by (simp add: transform_output_def)

lemma transform_output_fields:
  "info_buffer (transform_output beep_tone r num gf) = info_buffer gf"
  "info_out_buffer (transform_output beep_tone r num gf) = info_out_buffer gf"
  "map input_buffers (chans (transform_output beep_tone r num gf)) = map input_buffers (chans gf)"
  "map output_buffers (chans (transform_output beep_tone r num gf)) = map output_buffers (chans gf)"
  "overlap_ms (transform_output beep_tone r num gf) = overlap_ms gf"
  "sample_rate (transform_output beep_tone r num gf) = sample_rate gf"
  by (simp_all add: transform_output_def Let_def comp_def)

lemma snapshot_output_fields:
  "info_buffer (snapshot_output gf) = info_buffer gf"
  "info_out_buffer (snapshot_output gf) = info_out_buffer gf"
  "whisper_context (snapshot_output gf) = whisper_context gf"
  "detect_regex (snapshot_output gf) = detect_regex gf"
  "beep_regex (snapshot_output gf) = beep_regex gf"
  "map input_buffers (chans (snapshot_output gf)) = map input_buffers (chans gf)"
  "map output_buffers (chans (snapshot_output gf)) = map output_buffers (chans gf)"
  "overlap_ms (snapshot_output gf) = overlap_ms gf"
  "sample_rate (snapshot_output gf) = sample_rate gf"
  by (simp_all add: snapshot_output_def comp_def)

lemma published_unmodified_snapshot:
  "published_unmodified g1 num ts
     (adapt_overlap dur num skipped (publish_output num ts (snapshot_output g1)))"
  by (simp add: published_unmodified_def adapt_overlap_buffers publish_output_def
      snapshot_output_def comp_def)

text \<open>The classifier leaves the state alone unless the recogniser throws.\<close>

lemma run_whisper_inference_cases:
  "snd (run_whisper_inference rx g outcome) = g
   \<or> snd (run_whisper_inference rx g outcome) = g\<lparr>whisper_context := False\<rparr>"
  by (simp add: run_whisper_inference_def Let_def split: whisper_full_outcome.splits)

lemma run_whisper_inference_state:
  "fst (run_whisper_inference rx g outcome) \<noteq> DETECTION_RESULT_UNKNOWN \<Longrightarrow>
   snd (run_whisper_inference rx g outcome) = g"
  by (auto simp add: run_whisper_inference_def Let_def
      split: whisper_full_outcome.splits if_splits)

lemma run_whisper_inference_nonzero:
  "code \<noteq> 0 \<Longrightarrow>
   run_whisper_inference rx g (WhisperResult code text) = (DETECTION_RESULT_UNKNOWN, g)"
  by (simp add: run_whisper_inference_def)

text \<open>What the assembly returns, field by field.\<close>

lemma collect_channels_pop:
  "collect_channels (map (pop_input_channel prev ov num) chs) = Inr chs' \<Longrightarrow>
   map input_buffers chs' = map (\<lambda>ch. drop (unat num) (input_buffers ch)) chs
   \<and> map output_buffers chs' = map output_buffers chs"
proof (induction chs arbitrary: chs')
  case Nil
  then show ?case by simp
next
  case (Cons ch chs)
  from Cons.prems obtain c cs where c: "pop_input_channel prev ov num ch = Inr c"
    and cs: "collect_channels (map (pop_input_channel prev ov num) chs) = Inr cs"
    and eq: "chs' = c # cs"
    by (auto split: sum.splits)
  from c have "input_buffers c = drop (unat num) (input_buffers ch)"
    and "output_buffers c = output_buffers ch"
    by (auto simp add: pop_input_channel_def Let_def split: if_splits)
  with Cons.IH [OF cs] eq show ?case by simp
qed

lemma assemble_window_fields:
  assumes "assemble_window gf = Inr (g1, num, ts)"
  shows "sample_rate g1 = sample_rate gf" and "whisper_context g1 = whisper_context gf"
    and "vad_enabled g1 = vad_enabled gf" and "info_out_buffer g1 = info_out_buffer gf"
    and "detect_regex g1 = detect_regex gf" and "beep_regex g1 = beep_regex gf"
    and "overlap_ms g1 = overlap_ms gf"
  using assms
  by (auto simp add: assemble_window_def split: prod.splits sum.splits)

lemma assemble_window_result:
  assumes "assemble_window gf = Inr (g1, num, ts)"
  shows "info_buffer g1 = fst (drain_infos (info_buffer gf) 0 0 (how_many_frames_needed gf))"
    and "num = fst (snd (drain_infos (info_buffer gf) 0 0 (how_many_frames_needed gf)))"
    and "ts = snd (snd (drain_infos (info_buffer gf) 0 0 (how_many_frames_needed gf)))"
    and "map input_buffers (chans g1) = map (\<lambda>ch. drop (unat num) (input_buffers ch)) (chans gf)"
    and "map output_buffers (chans g1) = map output_buffers (chans gf)"
  using assms
  by (auto simp add: assemble_window_def split: prod.splits sum.splits
      dest: collect_channels_pop)

text \<open>
  Whenever inference is skipped or yields neither filler nor beep without a throw,
  the window is the published snapshot followed by the overlap update.
\<close>

lemma process_no_transformation:
  assumes "assemble_window gf = Inr (g1, num, ts)" and "sample_rate g1 \<noteq> 0"
    and "vad_enabled g1 \<and> \<not> vad_speech env \<or>
         (run_whisper_inference rx (snapshot_output g1) (whisper_outcome env)
            = (r, snapshot_output g1)
          \<and> r \<noteq> DETECTION_RESULT_FILLER \<and> r \<noteq> DETECTION_RESULT_BEEP)"
  shows "process_audio_from_buffer rx beep_tone env gf =
           Inr (adapt_overlap (duration env) num (vad_enabled g1 \<and> \<not> vad_speech env)
                  (publish_output num ts (snapshot_output g1)))"
  using assms
  by (auto simp add: process_audio_from_buffer_def Let_def transform_output_other)

lemma process_result:
  assumes "process_audio_from_buffer rx beep_tone env gf = Inr gf'"
  obtains g1 num ts g3 where "assemble_window gf = Inr (g1, num, ts)"
    and "gf' = adapt_overlap (duration env) num (vad_enabled g1 \<and> \<not> vad_speech env)
                 (publish_output num ts g3)"
    and "info_buffer g3 = info_buffer g1" and "info_out_buffer g3 = info_out_buffer g1"
    and "map input_buffers (chans g3) = map input_buffers (chans g1)"
    and "map output_buffers (chans g3) = map output_buffers (chans g1)"
    and "overlap_ms g3 = overlap_ms g1" and "sample_rate g3 = sample_rate g1"
proof -
  from assms obtain g1 num ts where a: "assemble_window gf = Inr (g1, num, ts)"
    by (auto simp add: process_audio_from_buffer_def split: sum.splits)
  define sk where "sk = (vad_enabled g1 \<and> \<not> vad_speech env)"
  define g3 where "g3 = (if \<not> sk
       then transform_output beep_tone
              (fst (run_whisper_inference rx (snapshot_output g1) (whisper_outcome env))) num
              (snd (run_whisper_inference rx (snapshot_output g1) (whisper_outcome env)))
       else snapshot_output g1)"
  have r: "gf' = adapt_overlap (duration env) num sk (publish_output num ts g3)"
    using assms a
    by (auto simp add: process_audio_from_buffer_def Let_def sk_def g3_def
        split: if_splits prod.splits)
  have f: "info_buffer g3 = info_buffer g1 \<and> info_out_buffer g3 = info_out_buffer g1
      \<and> map input_buffers (chans g3) = map input_buffers (chans g1)
      \<and> map output_buffers (chans g3) = map output_buffers (chans g1)
      \<and> overlap_ms g3 = overlap_ms g1 \<and> sample_rate g3 = sample_rate g1"
    using run_whisper_inference_cases [of rx "snapshot_output g1" "whisper_outcome env"]
    by (auto simp add: g3_def transform_output_fields snapshot_output_fields)
  show ?thesis
    using that [OF a] r f by (simp add: sk_def)
qed

section \<open>What a window publishes\<close>

lemma collect_channels_all2:
  "collect_channels (map f xs) = Inr ys \<Longrightarrow> list_all2 (\<lambda>x y. f x = Inr y) xs ys"
proof (induction xs arbitrary: ys)
  case Nil
  then show ?case by simp
next
  case (Cons x xs)
  from Cons.prems obtain y ys' where "f x = Inr y"
    and "collect_channels (map f xs) = Inr ys'" and "ys = y # ys'"
    by (auto split: sum.splits)
  with Cons.IH show ?case by simp
qed

lemma list_all2_map_eq:
  "list_all2 P xs ys \<Longrightarrow> (\<And>x y. x \<in> set xs \<Longrightarrow> P x y \<Longrightarrow> g y = h x) \<Longrightarrow> map g ys = map h xs"
  by (induction rule: list_all2_induct) simp_all

lemma unat_ucast_u32: "unat (ucast (w :: u32) :: u64) = unat w"
proof -
  have "unat w < 2 ^ 32" using unsigned_less [of w] by simp
  then have "unat w < 2 ^ 64" by simp
  then show ?thesis by (simp add: unsigned_ucast_eq take_bit_nat_eq_self)
qed

text \<open>
  After the first window, the staging array of a channel starts with the last
  \<open>overlap_frames\<close> samples of the previous window, followed by the new samples.
\<close>

lemma pop_input_channel_later:
  assumes "0 < prev" and "pop_input_channel prev ov num ch = Inr ch'"
  shows "take (unat ov + unat num) (copy_buffers ch')
           = take (unat ov) (drop (unat prev - unat ov) (copy_buffers ch))
             @ take (unat num) (input_buffers ch)"
proof -
  from assms have b: "unat ov \<le> unat prev" "unat prev \<le> length (copy_buffers ch)"
      "unat ov + unat num \<le> length (copy_buffers ch)"
      "unat num \<le> length (input_buffers ch)"
    and c: "copy_buffers ch' =
        write_at (write_at (copy_buffers ch) 0
                    (take (unat ov) (drop (unat prev - unat ov) (copy_buffers ch))))
          (unat ov) (take (unat num) (input_buffers ch))"
    by (auto simp add: pop_input_channel_def Let_def split: if_splits)
  have l: "length (take (unat ov) (drop (unat prev - unat ov) (copy_buffers ch))) = unat ov"
    using b by simp
  show ?thesis
    unfolding c using b l by (simp add: write_at_def min_def)
qed

text \<open>
  Hence a later window that is published unmodified hands to the host the first
  \<open>num\<close> samples of the overlap followed by the new samples: as long as the overlap is
  not empty, samples of the previous window leave a second time and the last new
  samples stay behind. The staging arrays have the length \<open>gf_frames\<close> of their
  allocation.
\<close>

lemma later_window_publishes_from_overlap:
  assumes later: "0 < last_num_frames gf"
    and alloc: "\<forall>ch \<in> set (chans gf). length (copy_buffers ch) = unat (gf_frames gf)"
    and a: "assemble_window gf = Inr (g1, num, ts)"
    and pub: "published_unmodified g1 num ts gf'"
  shows "map output_buffers (chans gf')
           = map (\<lambda>ch. output_buffers ch
                    @ take (unat num)
                        (take (unat (overlap_frames gf))
                           (drop (unat (last_num_frames gf) - unat (overlap_frames gf))
                              (copy_buffers ch))
                         @ take (unat num) (input_buffers ch)))
                 (chans gf)"
proof -
  define ov where "ov = overlap_frames gf"
  define prev where "prev = last_num_frames gf"
  from a obtain chans1 where
    c: "collect_channels (map (pop_input_channel prev ov num) (chans gf)) = Inr chans1"
    and g1: "chans g1 = chans1" "last_num_frames g1 = ucast num + ov"
    using later
    by (auto simp add: assemble_window_def ov_def prev_def split: prod.splits sum.splits)
  have all2: "list_all2 (\<lambda>ch ch'. pop_input_channel prev ov num ch = Inr ch') (chans gf) chans1"
    using c by (rule collect_channels_all2)
  have one: "output_buffers ch'
               @ take (unat num) (take (unat (ucast num + ov)) (copy_buffers ch'))
             = output_buffers ch
               @ take (unat num)
                   (take (unat ov) (drop (unat prev - unat ov) (copy_buffers ch))
                    @ take (unat num) (input_buffers ch))"
    if m: "ch \<in> set (chans gf)" and p: "pop_input_channel prev ov num ch = Inr ch'" for ch ch'
  proof -
    have cap: "unat ov + unat num \<le> length (copy_buffers ch)"
      and o: "output_buffers ch' = output_buffers ch"
      using p later
      by (auto simp add: pop_input_channel_def Let_def prev_def split: if_splits)
    have "unat ov + unat num \<le> unat (gf_frames gf)" using cap alloc m by simp
    also have "\<dots> < 2 ^ 64" using unsigned_less [of "gf_frames gf"] by simp
    finally have "unat (ucast num :: u64) + unat ov < 2 ^ 64"
      by (simp add: unat_ucast_u32 add.commute)
    then have u: "unat (ucast num + ov) = unat ov + unat num"
      using unat_add_lem [of "ucast num :: u64" ov] by (simp add: unat_ucast_u32)
    have "take (unat num) (take (unat (ucast num + ov)) (copy_buffers ch'))
            = take (unat num) (take (unat ov + unat num) (copy_buffers ch'))"
      by (simp only: u)
    also have "\<dots> = take (unat num)
                   (take (unat ov) (drop (unat prev - unat ov) (copy_buffers ch))
                    @ take (unat num) (input_buffers ch))"
      using pop_input_channel_later [OF _ p] later by (simp add: prev_def)
    finally show ?thesis by (simp add: o)
  qed
  have "map (\<lambda>ch'. output_buffers ch'
               @ take (unat num) (take (unat (ucast num + ov)) (copy_buffers ch'))) chans1
         = map (\<lambda>ch. output_buffers ch
               @ take (unat num)
                   (take (unat ov) (drop (unat prev - unat ov) (copy_buffers ch))
                    @ take (unat num) (input_buffers ch))) (chans gf)"
    using all2 by (rule list_all2_map_eq) (rule one)
  then show ?thesis
    using pub g1 by (simp add: published_unmodified_def ov_def prev_def)
qed

section \<open>Pass-through of the samples\<close>

text \<open>
  Claim C1. With the recogniser always reporting silence, every input sample is said
  to appear exactly once in the output, in order and unchanged, also across the first
  two windows. The host queues five packets of 24240 frames at 48 kHz (the samples of
  packet \<open>k\<close> are all \<open>k + 1\<close>) and the worker runs twice. The first window takes
  packets 0 and 1 and publishes them. The second window takes packet 2; its staging
  array starts with the last 16800 samples of the first window, and the first 24240
  samples of the snapshot are published: 16800 samples of packet 1 once more, then
  only 7440 of the 24240 samples of packet 2. The host has received 72720 samples,
  which are not the 72720 samples consumed from the input.
\<close>

theorem silent_trace_repeats_overlap:
  "case run_trace demo_regex sine_tone
          [Push (demo_packet 24240 0), Push (demo_packet 24240 1),
           Worker (demo_env (WhisperResult 0 []) 100),
           Push (demo_packet 24240 2), Push (demo_packet 24240 3),
           Worker (demo_env (WhisperResult 0 []) 100),
           Push (demo_packet 24240 4)] demo_gf [] of
     Inl f \<Rightarrow> False
   | Inr (gf, outs) \<Rightarrow>
       map audio_data outs =
         [[replicate 24240 1 @ replicate 24240 2], [replicate 16800 2 @ replicate 7440 3]]
       \<and> map input_buffers (chans gf) = [replicate 24240 4 @ replicate 24240 5]
       \<and> map output_buffers (chans gf) = [[]]
       \<and> concat (map (hd \<circ> audio_data) outs)
           \<noteq> take 72720 (concat (map (hd \<circ> audio_data \<circ> demo_packet 24240) [0, 1, 2, 3, 4]))"
proof -
  have ne: "replicate 16800 (2 :: real) @ replicate 7440 3 \<noteq> replicate 24240 3 @ []"
    by (rule replicate_append_neq) simp_all
  show ?thesis
    using ne by (simp add: eval_defs)
qed

section \<open>The timestamp of a window\<close>

text \<open>
  The loop keeps a start timestamp once it is not 0, so the timestamp of the first
  popped info is kept exactly when it is not 0.
\<close>

lemma drain_infos_keeps_timestamp:
  "ts \<noteq> 0 \<Longrightarrow> snd (snd (drain_infos infos num ts need)) = ts"
  by (induction infos arbitrary: num) (simp_all add: Let_def)

lemma drain_infos_first_timestamp:
  "timestamp info \<noteq> 0 \<Longrightarrow>
   snd (snd (drain_infos (info # infos) num 0 need)) = timestamp info"
  by (simp add: Let_def drain_infos_keeps_timestamp)

text \<open>
  Claim C2. The packet info published for a window is said to carry the timestamp of
  the first input packet that contributed frames, also when that timestamp is 0. The
  host queues packet 0 (timestamp 0) and packet 1 (timestamp 505000000) of 24240
  frames each, and the worker runs once. Both packets make up the window, and the
  published timestamp is that of packet 1: the loop takes \<open>start_timestamp = 0\<close> for
  "not yet set" and overwrites it with the timestamp of the next popped info.
\<close>

theorem zero_timestamp_is_overwritten:
  "audio_timestamp (demo_packet 24240 0) = 0
   \<and> drain_infos [\<lparr>frames = 24240, timestamp = 0\<rparr>,
                   \<lparr>frames = 24240, timestamp = 505000000\<rparr>] 0 0 48480
       = ([], 48480, 505000000)
   \<and> map_sum id (info_out_buffer \<circ> fst)
       (run_trace demo_regex sine_tone
          [Push (demo_packet 24240 0), Push (demo_packet 24240 1),
           Worker (demo_env (WhisperResult 0 ''Hello '') 100)] demo_gf [])
       = Inr [\<lparr>frames = 48480, timestamp = 505000000\<rparr>]"
  by (simp add: eval_defs)

section \<open>The range of the replacement\<close>

text \<open>
  Filling a staging array keeps its length, and the new frames fit into it.
\<close>

lemma pop_input_channel_length:
  assumes "pop_input_channel prev ov num ch = Inr ch'"
  shows "length (copy_buffers ch') = length (copy_buffers ch)"
    and "unat num \<le> length (copy_buffers ch)"
    and "0 < prev \<Longrightarrow> unat ov + unat num \<le> length (copy_buffers ch)"
  using assms
  by (auto simp add: pop_input_channel_def Let_def write_at_def min_def split: if_splits)

text \<open>
  Every snapshot holds at least the new frames of its window. The staging arrays have
  the length \<open>gf_frames\<close> of their allocation.
\<close>

lemma snapshot_holds_new_frames:
  assumes alloc: "\<forall>ch \<in> set (chans gf). length (copy_buffers ch) = unat (gf_frames gf)"
    and a: "assemble_window gf = Inr (g1, num, ts)"
  shows "\<forall>ch \<in> set (chans (snapshot_output g1)). unat num \<le> length (copy_output_buffers ch)"
proof -
  define ov where "ov = overlap_frames gf"
  define prev where "prev = last_num_frames gf"
  from a obtain chans1 where
    c: "collect_channels (map (pop_input_channel prev ov num) (chans gf)) = Inr chans1"
    and g1: "chans g1 = chans1"
      "last_num_frames g1 = (if 0 < prev then ucast num + ov else ucast num)"
    by (auto simp add: assemble_window_def ov_def prev_def split: prod.splits sum.splits)
  have all2: "list_all2 (\<lambda>ch ch'. pop_input_channel prev ov num ch = Inr ch') (chans gf) chans1"
    using c by (rule collect_channels_all2)
  have one: "unat num \<le> length (take (unat (last_num_frames g1)) (copy_buffers ch'))"
    if m: "ch' \<in> set chans1" for ch'
  proof -
    from m obtain i where i: "i < length chans1" "ch' = chans1 ! i"
      by (auto simp add: in_set_conv_nth)
    define ch where "ch = chans gf ! i"
    have ch: "ch \<in> set (chans gf)"
      using all2 i by (simp add: ch_def list_all2_lengthD)
    have p: "pop_input_channel prev ov num ch = Inr ch'"
      using all2 i by (simp add: ch_def list_all2_conv_all_nth)
    note len = pop_input_channel_length [OF p]
    have cap: "length (copy_buffers ch) < 2 ^ 64"
      using alloc ch unsigned_less [of "gf_frames gf"] by simp
    show ?thesis
    proof (cases "0 < prev")
      case False
      then show ?thesis using len g1 by (simp add: unat_ucast_u32)
    next
      case True
      then have "unat (ucast num :: u64) + unat ov < 2 ^ 64"
        using len(3) cap by (simp add: unat_ucast_u32 add.commute)
      then have "unat (ucast num + ov) = unat ov + unat num"
        using unat_add_lem [of "ucast num :: u64" ov] by (simp add: unat_ucast_u32)
      then show ?thesis using True len g1 by simp
    qed
  qed
  show ?thesis
    using one g1 by (auto simp add: snapshot_output_def)
qed

text \<open>
  The replacement of a filler or beep window with \<open>do_silence\<close> on: in every channel
  the snapshot is rewritten from its head up to the number of new frames, with zeros
  or with the tone, and stays as it was behind that index.
\<close>

lemma transform_output_replacement:
  assumes "do_silence gf"
    and "r = DETECTION_RESULT_FILLER \<or> r = DETECTION_RESULT_BEEP"
    and "\<forall>ch \<in> set (chans gf). unat num \<le> length (copy_output_buffers ch)"
  shows "chans (transform_output beep_tone r num gf)
         = map (\<lambda>ch. ch\<lparr>copy_output_buffers :=
                          map (\<lambda>i. if r = DETECTION_RESULT_FILLER then 0
                                    else beep_tone (sample_rate gf) i) [0..<unat num]
                          @ drop (unat num) (copy_output_buffers ch)\<rparr>)
               (chans gf)"
  using assms by (auto simp add: transform_output_def assign_range_prefix)

text \<open>
  Claim C3. For a window classified as filler with \<open>do_silence\<close> on, the replacement
  is said to write the new-data region of the snapshot only, and to leave the overlap
  region at its head (the first \<open>overlap_frames\<close> samples, carried over from the
  previous window) unchanged. In the trace below the second window is classified as
  filler. Its staging array holds 16800 overlap samples (value 2, from packet 1)
  followed by the 24240 new samples of packet 2 (value 3). The loop zeroes the indices
  below \<open>num_new_frames_from_infos = 24240\<close>: the whole overlap region and the first
  7440 new samples, while the last 16800 new samples stay as they were. The zeroed
  range is the range that the window publishes.
\<close>

theorem filler_replacement_overwrites_overlap:
  "map_sum id (map (take 41040 \<circ> copy_buffers) \<circ> chans \<circ> fst)
     (run_trace demo_regex sine_tone
        [Push (demo_packet 24240 0), Push (demo_packet 24240 1),
         Worker (demo_env (WhisperResult 0 ''Hello '') 100),
         Push (demo_packet 24240 2), Push (demo_packet 24240 3),
         Worker (demo_env (WhisperResult 0 '' Um...  '') 100)] demo_gf [])
     = Inr [replicate 16800 2 @ replicate 24240 3]
   \<and> map_sum id (map copy_output_buffers \<circ> chans \<circ> fst)
     (run_trace demo_regex sine_tone
        [Push (demo_packet 24240 0), Push (demo_packet 24240 1),
         Worker (demo_env (WhisperResult 0 ''Hello '') 100),
         Push (demo_packet 24240 2), Push (demo_packet 24240 3),
         Worker (demo_env (WhisperResult 0 '' Um...  '') 100)] demo_gf [])
     = Inr [replicate 16800 0 @ replicate 7440 0 @ replicate 16800 3]
   \<and> map_sum id (map output_buffers \<circ> chans \<circ> fst)
     (run_trace demo_regex sine_tone
        [Push (demo_packet 24240 0), Push (demo_packet 24240 1),
         Worker (demo_env (WhisperResult 0 ''Hello '') 100),
         Push (demo_packet 24240 2), Push (demo_packet 24240 3),
         Worker (demo_env (WhisperResult 0 '' Um...  '') 100)] demo_gf [])
     = Inr [replicate 24240 0]"
  by (simp add: eval_defs replicate_add [symmetric])

text \<open>
  Claim C3, amended. When a window is classified as filler or beep with \<open>do_silence\<close>
  on, the replacement writes exactly the first \<open>num_new_frames\<close> samples of the
  output snapshot, for every channel: zeros for filler, the tone for beep. These are
  the samples that the window publishes. The snapshot from index \<open>num_new_frames\<close>
  on, that is the remaining staged samples of the window, is left unchanged.
\<close>

theorem replacement_writes_published_range:
  assumes silence: "do_silence gf"
    and alloc: "\<forall>ch \<in> set (chans gf). length (copy_buffers ch) = unat (gf_frames gf)"
    and a: "assemble_window gf = Inr (g1, num, ts)"
    and rate: "sample_rate gf \<noteq> 0"
    and run: "\<not> (vad_enabled gf \<and> \<not> vad_speech env)"
    and r: "fst (run_whisper_inference rx (snapshot_output g1) (whisper_outcome env)) = r"
      "r = DETECTION_RESULT_FILLER \<or> r = DETECTION_RESULT_BEEP"
  shows "case process_audio_from_buffer rx beep_tone env gf of
           Inl f \<Rightarrow> False
         | Inr gf' \<Rightarrow>
             map copy_output_buffers (chans gf')
               = map (\<lambda>ch. map (\<lambda>i. if r = DETECTION_RESULT_FILLER then 0
                                      else beep_tone (sample_rate gf) i) [0..<unat num]
                           @ drop (unat num)
                               (take (unat (last_num_frames g1)) (copy_buffers ch)))
                     (chans g1)
             \<and> map output_buffers (chans gf')
               = map (\<lambda>ch. output_buffers ch
                           @ map (\<lambda>i. if r = DETECTION_RESULT_FILLER then 0
                                        else beep_tone (sample_rate gf) i) [0..<unat num])
                     (chans g1)"
proof -
  define g2 where "g2 = snapshot_output g1"
  note f = assemble_window_fields [OF a]
  have st: "run_whisper_inference rx g2 (whisper_outcome env) = (r, g2)"
  proof -
    have "snd (run_whisper_inference rx g2 (whisper_outcome env)) = g2"
      using r by (intro run_whisper_inference_state) (auto simp add: g2_def)
    with r(1) show ?thesis by (metis g2_def prod.collapse)
  qed
  have sil: "do_silence g2"
    using silence a
    by (auto simp add: g2_def snapshot_output_def assemble_window_def
        split: prod.splits sum.splits)
  have fits: "\<forall>ch \<in> set (chans g2). unat num \<le> length (copy_output_buffers ch)"
    unfolding g2_def by (rule snapshot_holds_new_frames [OF alloc a])
  have sr: "sample_rate g2 = sample_rate gf"
    using f by (simp add: g2_def snapshot_output_fields)
  note t = transform_output_replacement [OF sil r(2) fits, of beep_tone]
  define gf' where "gf' = adapt_overlap (duration env) num False
                            (publish_output num ts (transform_output beep_tone r num g2))"
  have sk: "(vad_enabled g1 \<and> \<not> vad_speech env) = False"
    using run f by simp
  have p: "process_audio_from_buffer rx beep_tone env gf = Inr gf'"
    using a rate f(1) st
    by (simp add: process_audio_from_buffer_def Let_def g2_def gf'_def sk)
  have c: "chans gf' =
      map (\<lambda>ch. ch\<lparr>output_buffers :=
                     output_buffers ch @ take (unat num) (copy_output_buffers ch)\<rparr>)
          (chans (transform_output beep_tone r num g2))"
    by (simp add: gf'_def adapt_overlap_buffers publish_output_def)
  have snap: "chans g2 = map (\<lambda>ch. ch\<lparr>copy_output_buffers :=
                         take (unat (last_num_frames g1)) (copy_buffers ch)\<rparr>) (chans g1)"
    by (simp add: g2_def snapshot_output_def)
  show ?thesis
    unfolding p by (simp add: c t sr snap comp_def)
qed

theorem replacement_writes_published_range_witness:
  "do_silence demo_queued
   \<and> assemble_window demo_queued = Inr (demo_staged, 48480, 505000000)
   \<and> fst (run_whisper_inference demo_regex (snapshot_output demo_staged)
            (WhisperResult 0 '' Um...  ''))
       = DETECTION_RESULT_FILLER
   \<and> (case process_audio_from_buffer demo_regex sine_tone
              (demo_env (WhisperResult 0 '' Um...  '') 100) demo_queued of
          Inl f \<Rightarrow> False
        | Inr gf' \<Rightarrow>
            map copy_output_buffers (chans gf') = [replicate 48480 0]
            \<and> map output_buffers (chans gf') = [replicate 48480 0])"
proof -
  have h1: "do_silence demo_queued" by (simp add: demo_queued_def demo_gf_def)
  have h2: "\<forall>ch \<in> set (chans demo_queued). length (copy_buffers ch) = unat (gf_frames demo_queued)"
    by (simp add: demo_queued_def demo_gf_def)
  have h4: "sample_rate demo_queued \<noteq> 0" by (simp add: demo_queued_def demo_gf_def)
  have h5: "\<not> (vad_enabled demo_queued
                \<and> \<not> vad_speech (demo_env (WhisperResult 0 '' Um...  '') 100))"
    by (simp add: demo_env_def)
  have h6: "fst (run_whisper_inference demo_regex (snapshot_output demo_staged)
            (whisper_outcome (demo_env (WhisperResult 0 '' Um...  '') 100)))
       = DETECTION_RESULT_FILLER"
    by (simp add: demo_staged_def eval_defs)
  have s: "chans demo_staged = [\<lparr>copy_buffers = replicate 24240 2 @ replicate 24240 3,
                 copy_output_buffers = [], input_buffers = replicate 24240 4,
                 output_buffers = []\<rparr>]"
      "last_num_frames demo_staged = 48480"
    by (simp_all add: demo_staged_def)
  show ?thesis
    using replacement_writes_published_range [OF h1 h2 demo_assemble h4 h5 h6 disjI1 [OF refl],
        where beep_tone = sine_tone] h1 demo_assemble h6
    by (auto simp add: s demo_env_def map_replicate_const split: sum.splits)
qed

section \<open>The high-pass filter is a gain\<close>

lemma hp_alpha_bounds:
  assumes "0 < cutoff" and "0 < unat rate"
  shows "0 < hp_alpha cutoff rate" and "hp_alpha cutoff rate < 1"
proof -
  define rc where "rc = 1 / (2 * pi * cutoff)"
  define dt where "dt = 1 / real (unat rate)"
  have rc: "0 < rc" using assms by (simp add: rc_def)
  have "0 < real (unat rate)" using assms(2) by (simp only: of_nat_0_less_iff)
  then have dt: "0 < dt" by (simp only: dt_def zero_less_divide_1_iff)
  have a: "hp_alpha cutoff rate = dt / (rc + dt)"
    by (simp only: hp_alpha_def Let_def rc_def dt_def)
  from rc dt show "0 < hp_alpha cutoff rate" unfolding a by (simp add: add_pos_pos)
  from rc dt show "hp_alpha cutoff rate < 1" unfolding a by (simp add: add_pos_pos)
qed

text \<open>
  When the loop reaches index \<open>i\<close>, the cell \<open>i - 1\<close> already holds the running
  output \<open>y\<close>, so the difference \<open>y - pcmf32[i - 1]\<close> vanishes and the stored value
  is \<open>\<alpha> x[i]\<close>.
\<close>

lemma hp_loop_gain:
  "length pcm = n \<Longrightarrow> 1 \<le> i \<Longrightarrow> i \<le> n \<Longrightarrow> y = pcm ! (i - 1) \<Longrightarrow>
   hp_loop alpha n i y pcm = take i pcm @ map ((*) alpha) (drop i pcm)"
proof (induction alpha n i y pcm rule: hp_loop.induct)
  case (1 alpha n i y pcm)
  show ?case
  proof (cases "i < n")
    case False
    with "1.prems" show ?thesis by (subst hp_loop.simps) simp
  next
    case True
    define y' where "y' = alpha * (y + pcm ! i - pcm ! (i - 1))"
    have y': "y' = alpha * pcm ! i" using "1.prems" by (simp add: y'_def)
    have "hp_loop alpha n (Suc i) y' (pcm[i := y']) =
            take (Suc i) (pcm[i := y']) @ map ((*) alpha) (drop (Suc i) (pcm[i := y']))"
      using True "1.prems" by (intro "1.IH"[OF True y'_def]) auto
    also have "\<dots> = take i pcm @ [y'] @ map ((*) alpha) (drop (Suc i) pcm)"
      using True "1.prems" by (simp add: take_Suc_conv_app_nth)
    also have "\<dots> = take i pcm @ map ((*) alpha) (drop i pcm)"
      using True "1.prems" by (simp add: y' Cons_nth_drop_Suc [symmetric])
    finally show ?thesis
      using True by (subst hp_loop.simps) (simp add: y'_def Let_def)
  qed
qed

lemma high_pass_filter_gain:
  "high_pass_filter (x0 # xs) cutoff rate = x0 # map ((*) (hp_alpha cutoff rate)) xs"
  by (simp add: high_pass_filter_def hp_loop_gain)

text \<open>
  Claim C4. The pre-emphasis is said to store \<open>y[i] = \<alpha> (y[i-1] + x[i] - x[i-1])\<close>
  with \<open>x\<close> the original samples. On the buffer \<open>1, 2, 4\<close> at 16 kHz with the
  100 Hz cutoff the program stores \<open>1, 2\<alpha>, 4\<alpha>\<close>, the recurrence gives
  \<open>1, 2\<alpha>, \<alpha> (2\<alpha> + 2)\<close>, and the two differ: the loop reads \<open>pcmf32[i - 1]\<close>
  after having overwritten it.
\<close>

theorem high_pass_filter_reads_overwritten_sample:
  "high_pass_filter [1, 2, 4] 100 16000
     = [1, 2 * hp_alpha 100 16000, 4 * hp_alpha 100 16000]
   \<and> hp_reference (hp_alpha 100 16000) [1, 2, 4]
     = [1, 2 * hp_alpha 100 16000, hp_alpha 100 16000 * (2 * hp_alpha 100 16000 + 2)]
   \<and> high_pass_filter [1, 2, 4] 100 16000 \<noteq> hp_reference (hp_alpha 100 16000) [1, 2, 4]"
proof -
  have p: "0 < hp_alpha 100 16000" by (rule hp_alpha_bounds) simp_all
  have l: "hp_alpha 100 16000 < 1" by (rule hp_alpha_bounds) simp_all
  have ne: "4 * hp_alpha 100 16000 \<noteq> hp_alpha 100 16000 * (2 * hp_alpha 100 16000 + 2)"
  proof
    assume "4 * hp_alpha 100 16000 = hp_alpha 100 16000 * (2 * hp_alpha 100 16000 + 2)"
    then have "hp_alpha 100 16000 * (2 - 2 * hp_alpha 100 16000) = 0"
      by (simp add: algebra_simps)
    with p l show False by simp
  qed
  show ?thesis using ne
    by (simp add: high_pass_filter_gain hp_reference_def Let_def mult.commute)
qed

section \<open>The order of the classifier's decisions\<close>

text \<open>
  Claim C5. After a successful recogniser call the classifier is said to decide in a
  fixed order on the lower-cased, right-trimmed text: empty text is silence, else a
  non-empty filler pattern that matches is filler, else a non-empty beep pattern that
  matches is beep, else speech. That chain is \<open>classifier_chain\<close>. With the filler
  pattern \<^verbatim>\<open>(\<close>, which does not compile, the beep pattern \<^verbatim>\<open>damn\<close> and the text
  \<^verbatim>\<open>damn\<close>, the chain gives beep and the program gives speech: the thrown error
  leaves the block that holds both searches.
\<close>

theorem classifier_chain_fails_on_regex_error:
  "fst (run_whisper_inference demo_regex (demo_gf\<lparr>detect_regex := Some ''(''\<rparr>)
          (WhisperResult 0 ''damn''))
     = DETECTION_RESULT_SPEECH
   \<and> classifier_chain demo_regex (Some ''('') (Some ''damn'') (lower_trim ''damn'')
     = DETECTION_RESULT_BEEP"
  by (simp add: run_whisper_inference_def classify_text_def try_regex_def demo_regex_def
      classifier_chain_def matches_anywhere_def lower_trim_examples demo_gf_def)

text \<open>
  Claim C5, amended. After a successful recogniser call in which searching the filler
  pattern raises no error, the classifier decides in the fixed order: empty text is
  silence, else a non-empty filler pattern that matches is filler, else a non-empty
  beep pattern that matches is beep, else speech. In particular, when the filler
  pattern is the empty string, filler is never returned, whatever the text and the beep
  pattern.
\<close>

theorem classifier_order:
  assumes "whisper_context gf"
  shows "(try_regex rx (detect_regex gf) (lower_trim text) \<noteq> None
          \<longrightarrow> fst (run_whisper_inference rx gf (WhisperResult 0 text))
              = classifier_chain rx (detect_regex gf) (beep_regex gf) (lower_trim text))
       \<and> (detect_regex gf = Some []
          \<longrightarrow> fst (run_whisper_inference rx gf (WhisperResult 0 text))
              \<noteq> DETECTION_RESULT_FILLER)"
proof -
  have chain: "fst (run_whisper_inference rx gf (WhisperResult 0 text))
              = classifier_chain rx (detect_regex gf) (beep_regex gf) (lower_trim text)"
    if "try_regex rx (detect_regex gf) (lower_trim text) \<noteq> None"
    using that assms
    by (auto simp add: run_whisper_inference_def Let_def classify_text_def try_regex_def
        classifier_chain_def matches_anywhere_def split: option.splits bool.splits if_splits)
  have empty: "fst (run_whisper_inference rx gf (WhisperResult 0 text))
              \<noteq> DETECTION_RESULT_FILLER"
    if "detect_regex gf = Some []"
    using that assms
    by (auto simp add: run_whisper_inference_def Let_def classify_text_def try_regex_def
        split: option.splits bool.splits)
  show ?thesis using chain empty by blast
qed

theorem classifier_order_witness:
  "whisper_context (demo_gf\<lparr>detect_regex := Some []\<rparr>)
   \<and> try_regex demo_regex (detect_regex (demo_gf\<lparr>detect_regex := Some []\<rparr>))
        (lower_trim ''Damn it '') \<noteq> None
   \<and> detect_regex (demo_gf\<lparr>detect_regex := Some []\<rparr>) = Some []
   \<and> fst (run_whisper_inference demo_regex (demo_gf\<lparr>detect_regex := Some []\<rparr>)
            (WhisperResult 0 ''Damn it ''))
       = DETECTION_RESULT_BEEP
   \<and> fst (run_whisper_inference demo_regex (demo_gf\<lparr>detect_regex := Some []\<rparr>)
            (WhisperResult 0 ''Damn it ''))
       \<noteq> DETECTION_RESULT_FILLER"
proof -
  have c: "whisper_context (demo_gf\<lparr>detect_regex := Some []\<rparr>)"
    by (simp add: demo_gf_def)
  have b: "classifier_chain demo_regex (detect_regex (demo_gf\<lparr>detect_regex := Some []\<rparr>))
             (beep_regex (demo_gf\<lparr>detect_regex := Some []\<rparr>)) (lower_trim ''Damn it '')
           = DETECTION_RESULT_BEEP"
    by (simp add: classifier_chain_def matches_anywhere_def demo_regex_def
        lower_trim_examples demo_gf_def)
  show ?thesis
    using classifier_order [OF c, of demo_regex "''Damn it ''"] b
    by (simp add: try_regex_def demo_gf_def)
qed

section \<open>A pattern that does not compile\<close>

lemma run_whisper_inference_depends:
  assumes "whisper_context g = whisper_context g'" and "detect_regex g = detect_regex g'"
    and "beep_regex g = beep_regex g'"
  shows "fst (run_whisper_inference rx g outcome) = fst (run_whisper_inference rx g' outcome)"
  using assms
  by (simp add: run_whisper_inference_def Let_def split: whisper_full_outcome.splits)

text \<open>
  Claim C6. When compiling a pattern fails, the classifier is said to treat that
  pattern as a non-match and still to evaluate the remaining pattern, so that a filler
  pattern that does not compile does not keep a matching beep pattern from yielding
  beep. With the filler pattern \<^verbatim>\<open>(\<close>, the beep pattern \<^verbatim>\<open>damn\<close> and the recognised
  text \<^verbatim>\<open>Damn it\<close>, the beep pattern matches the normalised text, yet the window is
  classified as speech and its samples are published as they were staged, not as a
  tone.
\<close>

theorem filler_regex_error_hides_beep:
  "demo_regex ''('' (lower_trim ''Damn it '') = None
   \<and> demo_regex ''damn'' (lower_trim ''Damn it '') = Some True
   \<and> fst (run_whisper_inference demo_regex (demo_staged\<lparr>detect_regex := Some ''(''\<rparr>)
            (WhisperResult 0 ''Damn it ''))
       = DETECTION_RESULT_SPEECH
   \<and> map_sum id (map output_buffers \<circ> chans)
        (process_audio_from_buffer demo_regex sine_tone
           (demo_env (WhisperResult 0 ''Damn it '') 100)
           (demo_queued\<lparr>detect_regex := Some ''(''\<rparr>))
       = Inr [replicate 24240 2 @ replicate 24240 3]"
  by (simp add: demo_queued_def demo_staged_def eval_defs)

text \<open>
  Claim C6, amended. When the search with the filler pattern raises a regex error,
  the classifier logs it and classifies the window as speech without evaluating the
  beep pattern; when the filler pattern is skipped or does not match and the search
  with the beep pattern raises, the window is classified as speech as well. The
  window is still published, with its snapshot unmodified, and the failure leaves no
  trace in the filter state: any later recogniser outcome is classified as it would
  have been before, so later windows compile the patterns again.
\<close>

theorem regex_error_yields_speech:
  assumes "whisper_context gf" and "lower_trim text \<noteq> []"
    and "try_regex rx (detect_regex gf) (lower_trim text) = None
         \<or> (try_regex rx (detect_regex gf) (lower_trim text) = Some False
            \<and> try_regex rx (beep_regex gf) (lower_trim text) = None)"
    and "whisper_outcome env = WhisperResult 0 text"
    and "assemble_window gf = Inr (g1, num, ts)" and "sample_rate gf \<noteq> 0"
  shows "run_whisper_inference rx gf (WhisperResult 0 text) = (DETECTION_RESULT_SPEECH, gf)
    \<and> (case process_audio_from_buffer rx beep_tone env gf of
          Inl f \<Rightarrow> False
        | Inr gf' \<Rightarrow>
            published_unmodified g1 num ts gf'
            \<and> fst (run_whisper_inference rx gf' later)
                = fst (run_whisper_inference rx gf later))"
proof -
  have speech: "run_whisper_inference rx g (WhisperResult 0 text) = (DETECTION_RESULT_SPEECH, g)"
    if "whisper_context g" and "detect_regex g = detect_regex gf"
      and "beep_regex g = beep_regex gf" for g :: "'a cleanstream_data"
    using that assms(2,3)
    by (auto simp add: run_whisper_inference_def Let_def classify_text_def)
  have rate: "sample_rate g1 \<noteq> 0" using assms by (simp add: assemble_window_fields)
  have s1: "run_whisper_inference rx (snapshot_output g1) (whisper_outcome env)
              = (DETECTION_RESULT_SPEECH, snapshot_output g1)"
    using assms(1,4) assemble_window_fields [OF assms(5)]
    by (simp add: speech snapshot_output_fields)
  define gf' where "gf' = adapt_overlap (duration env) num (vad_enabled g1 \<and> \<not> vad_speech env)
                  (publish_output num ts (snapshot_output g1))"
  have p: "process_audio_from_buffer rx beep_tone env gf = Inr gf'"
    unfolding gf'_def
    by (rule process_no_transformation [OF assms(5) rate, where r = DETECTION_RESULT_SPEECH])
       (simp add: s1)
  have same: "fst (run_whisper_inference rx gf' later) = fst (run_whisper_inference rx gf later)"
    by (rule run_whisper_inference_depends)
       (simp_all add: gf'_def adapt_overlap_buffers publish_output_def snapshot_output_fields
          assemble_window_fields [OF assms(5)])
  show ?thesis
    using speech [of gf] assms(1) p same
    by (simp add: gf'_def published_unmodified_snapshot)
qed

theorem regex_error_yields_speech_witness:
  "whisper_context (demo_queued\<lparr>detect_regex := Some ''(''\<rparr>)
   \<and> lower_trim ''Damn it '' \<noteq> []
   \<and> try_regex demo_regex (detect_regex (demo_queued\<lparr>detect_regex := Some ''(''\<rparr>))
        (lower_trim ''Damn it '') = None
   \<and> assemble_window (demo_queued\<lparr>detect_regex := Some ''(''\<rparr>)
       = Inr (demo_staged\<lparr>detect_regex := Some ''(''\<rparr>, 48480, 505000000)
   \<and> run_whisper_inference demo_regex (demo_queued\<lparr>detect_regex := Some ''(''\<rparr>)
        (WhisperResult 0 ''Damn it '')
       = (DETECTION_RESULT_SPEECH, demo_queued\<lparr>detect_regex := Some ''(''\<rparr>)
   \<and> (case process_audio_from_buffer demo_regex sine_tone
              (demo_env (WhisperResult 0 ''Damn it '') 100)
              (demo_queued\<lparr>detect_regex := Some ''(''\<rparr>) of
          Inl f \<Rightarrow> False
        | Inr gf' \<Rightarrow>
            published_unmodified (demo_staged\<lparr>detect_regex := Some ''(''\<rparr>) 48480 505000000 gf'
            \<and> fst (run_whisper_inference demo_regex gf' (WhisperResult 0 ''damn''))
                = fst (run_whisper_inference demo_regex
                         (demo_queued\<lparr>detect_regex := Some ''(''\<rparr>) (WhisperResult 0 ''damn'')))"
proof -
  have h1: "whisper_context (demo_queued\<lparr>detect_regex := Some ''(''\<rparr>)"
    by (simp add: demo_queued_def demo_gf_def)
  have h2: "lower_trim ''Damn it '' \<noteq> []"
    by (simp add: lower_trim_examples)
  have h3: "try_regex demo_regex (detect_regex (demo_queued\<lparr>detect_regex := Some ''(''\<rparr>))
        (lower_trim ''Damn it '') = None"
    by (simp add: try_regex_def demo_regex_def)
  have h4: "whisper_outcome (demo_env (WhisperResult 0 ''Damn it '') 100)
              = WhisperResult 0 ''Damn it ''"
    by (simp add: demo_env_def)
  have h5: "assemble_window (demo_queued\<lparr>detect_regex := Some ''(''\<rparr>)
       = Inr (demo_staged\<lparr>detect_regex := Some ''(''\<rparr>, 48480, 505000000)"
    by (simp add: demo_queued_def demo_staged_def eval_defs)
  have h6: "sample_rate (demo_queued\<lparr>detect_regex := Some ''(''\<rparr>) \<noteq> 0"
    by (simp add: demo_queued_def demo_gf_def)
  show ?thesis
    using regex_error_yields_speech [OF h1 h2 disjI1 [OF h3] h4 h5 h6,
        where beep_tone = sine_tone and later = "WhisperResult 0 ''damn''"] h1 h2 h3 h5
    by simp
qed

section \<open>The adaptive overlap\<close>

lemma unat_three_quarters_ms: "unat (three_quarters_ms ms) = 3 * unat ms div 4"
proof -
  have "unat ms < 2 ^ 32" using unsigned_less [of ms] by simp
  then have "3 * unat ms div 4 < 2 ^ 64" by simp
  then show ?thesis by (simp add: three_quarters_ms_def unat_of_nat)
qed

lemma three_quarters_ms_le: "three_quarters_ms ms \<le> 4294967296"
proof -
  have "unat ms < 2 ^ 32" using unsigned_less [of ms] by simp
  then have "3 * unat ms div 4 \<le> 4294967296" by simp
  then show ?thesis by (simp add: word_le_nat_alt unat_three_quarters_ms)
qed

text \<open>
  At a sample rate of 768 Hz or more, the duration of the new data stays in the range
  in which the floating-point product with 0.75 is exact.
\<close>

lemma new_frames_from_infos_ms_range:
  assumes "768 \<le> unat rate"
  shows "3 * unat (new_frames_from_infos_ms num rate) < 2 ^ 24"
proof -
  have "unat (num * 1000) < 2 ^ 32" using unsigned_less [of "num * 1000"] by simp
  then have a: "unat (num * 1000) \<le> 4294967295" by simp
  have "unat (num * 1000) div unat rate \<le> unat (num * 1000) div 768"
    using assms by (intro div_le_mono2) simp_all
  also have "\<dots> \<le> 4294967295 div 768"
    using a by (rule div_le_mono)
  finally have "unat (num * 1000) div unat rate \<le> 5592405" by simp
  then show ?thesis
    by (simp add: new_frames_from_infos_ms_def unat_div)
qed

lemma overlap_minus_ten:
  fixes x :: u64
  assumes "100 \<le> x" and "x \<le> 4294967296"
  shows "x - 10 \<le> 4294967296"
proof -
  from assms have "(10 :: u64) \<le> x" by (simp add: word_le_nat_alt)
  then have "unat (x - 10) = unat x - 10" by (simp add: unat_sub)
  with assms show ?thesis by (simp add: word_le_nat_alt)
qed

lemma overlap_plus_ten:
  fixes x :: u64
  assumes "100 \<le> x" and "x \<le> 4294967296"
  shows "100 \<le> x + 10"
proof -
  from assms have "unat x + unat (10 :: u64) < 2 ^ 64" by (simp add: word_le_nat_alt)
  then have "unat (x + 10) = unat x + 10" using unat_add_lem [of x 10] by simp
  with assms show ?thesis by (simp add: word_le_nat_alt)
qed

lemma adapt_overlap_sample_rate: "sample_rate (adapt_overlap dur num sk gf) = sample_rate gf"
  by (simp add: adapt_overlap_def Let_def)

lemma adapt_overlap_invariant:
  assumes "100 \<le> overlap_ms gf" and "overlap_ms gf \<le> 4294967296"
    and "\<not> uint (new_frames_from_infos_ms num (sample_rate gf)) < dur \<and> \<not> sk
         \<longrightarrow> 100 \<le> three_quarters_ms (new_frames_from_infos_ms num (sample_rate gf))"
  shows "100 \<le> overlap_ms (adapt_overlap dur num sk gf)
       \<and> overlap_ms (adapt_overlap dur num sk gf) \<le> 4294967296"
  using assms overlap_minus_ten [of "overlap_ms gf"] overlap_plus_ten [of "overlap_ms gf"]
    three_quarters_ms_le [of "new_frames_from_infos_ms num (sample_rate gf)"]
  by (auto simp add: adapt_overlap_def Let_def max_def min_def)

lemma adapt_overlap_increase:
  assumes "\<not> uint (new_frames_from_infos_ms num (sample_rate gf)) < dur" and "\<not> sk"
  shows "overlap_ms (adapt_overlap dur num sk gf)
           \<le> three_quarters_ms (new_frames_from_infos_ms num (sample_rate gf))"
  using assms by (simp add: adapt_overlap_def Let_def)

lemma overlap_run_sample_rate: "sample_rate (overlap_run ws gf) = sample_rate gf"
  by (induction ws gf rule: overlap_run.induct) (simp_all add: adapt_overlap_sample_rate)

lemma overlap_run_snoc:
  "overlap_run (ws @ [(dur, num, sk)]) gf = adapt_overlap dur num sk (overlap_run ws gf)"
  by (induction ws gf rule: overlap_run.induct) simp_all

lemma overlap_run_invariant:
  assumes "100 \<le> overlap_ms gf" and "overlap_ms gf \<le> 4294967296"
    and "\<forall>(dur, num, sk) \<in> set ws.
           \<not> uint (new_frames_from_infos_ms num (sample_rate gf)) < dur \<and> \<not> sk
             \<longrightarrow> 100 \<le> three_quarters_ms (new_frames_from_infos_ms num (sample_rate gf))"
  shows "100 \<le> overlap_ms (overlap_run ws gf) \<and> overlap_ms (overlap_run ws gf) \<le> 4294967296"
  using assms
proof (induction ws gf rule: overlap_run.induct)
  case (1 gf)
  then show ?case by simp
next
  case (2 dur num skipped ws gf)
  have step: "100 \<le> overlap_ms (adapt_overlap dur num skipped gf)
       \<and> overlap_ms (adapt_overlap dur num skipped gf) \<le> 4294967296"
    using "2.prems" by (intro adapt_overlap_invariant) simp_all
  show ?case
    using step "2.prems"(3) by (simp add: "2.IH" adapt_overlap_sample_rate)
qed

text \<open>
  The segment processor changes \<open>overlap_ms\<close> by the controller step only, so the
  runs of \<open>overlap_run\<close> are the trajectories of \<open>overlap_ms\<close> in the filter.
\<close>

lemma process_overlap_ms:
  assumes "process_audio_from_buffer rx beep_tone env gf = Inr gf'"
  shows "\<exists>num sk. overlap_ms gf' = overlap_ms (adapt_overlap (duration env) num sk gf)"
proof -
  from assms obtain g1 num ts g3 where a: "assemble_window gf = Inr (g1, num, ts)"
    and r: "gf' = adapt_overlap (duration env) num (vad_enabled g1 \<and> \<not> vad_speech env)
                 (publish_output num ts g3)"
    and f: "overlap_ms g3 = overlap_ms g1" "sample_rate g3 = sample_rate g1"
    by (rule process_result)
  have "overlap_ms (publish_output num ts g3) = overlap_ms gf"
    and "sample_rate (publish_output num ts g3) = sample_rate gf"
    using f assemble_window_fields [OF a] by (simp_all add: publish_output_def)
  then have "overlap_ms gf'
      = overlap_ms (adapt_overlap (duration env) num (vad_enabled g1 \<and> \<not> vad_speech env) gf)"
    unfolding r by (simp add: adapt_overlap_def Let_def)
  then show ?thesis by blast
qed

text \<open>
  Over a whole trace: the host callback leaves the controller alone, and each pass of
  the worker is at most one controller step. So every \<open>overlap_ms\<close> that a trace
  reaches is reached by \<open>overlap_run\<close> on some sequence of windows.
\<close>

lemma adapt_overlap_cong:
  assumes "overlap_ms g = overlap_ms h" and "sample_rate g = sample_rate h"
  shows "overlap_ms (adapt_overlap dur num sk g) = overlap_ms (adapt_overlap dur num sk h)"
    and "sample_rate (adapt_overlap dur num sk g) = sample_rate (adapt_overlap dur num sk h)"
  using assms by (simp_all add: adapt_overlap_def Let_def)

lemma overlap_run_cong:
  assumes "overlap_ms g = overlap_ms h" and "sample_rate g = sample_rate h"
  shows "overlap_ms (overlap_run ws g) = overlap_ms (overlap_run ws h)"
  using assms
proof (induction ws arbitrary: g h)
  case Nil
  then show ?case by simp
next
  case (Cons w ws)
  obtain dur num sk where w: "w = (dur, num, sk)" by (cases w)
  show ?case
    unfolding w overlap_run.simps
    by (rule Cons.IH) (rule adapt_overlap_cong [OF Cons.prems])+
qed

lemma cleanstream_filter_audio_overlap:
  assumes "cleanstream_filter_audio gf audio = Inr (gf', out)"
  shows "overlap_ms gf' = overlap_ms gf" and "sample_rate gf' = sample_rate gf"
  using assms
  by (auto simp add: cleanstream_filter_audio_def Let_def split: if_splits list.splits)

lemma process_sample_rate:
  assumes "process_audio_from_buffer rx beep_tone env gf = Inr gf'"
  shows "sample_rate gf' = sample_rate gf"
proof -
  from assms obtain g1 num ts g3 where a: "assemble_window gf = Inr (g1, num, ts)"
    and r: "gf' = adapt_overlap (duration env) num (vad_enabled g1 \<and> \<not> vad_speech env)
                 (publish_output num ts g3)"
    and f: "sample_rate g3 = sample_rate g1"
    by (rule process_result)
  show ?thesis
    using f assemble_window_fields [OF a]
    by (simp add: r adapt_overlap_sample_rate publish_output_def)
qed

lemma run_trace_overlap_run:
  assumes "run_trace rx beep_tone es gf outs = Inr (gf', outs')"
  shows "\<exists>ws. overlap_ms gf' = overlap_ms (overlap_run ws gf)"
  using assms
proof (induction es arbitrary: gf outs)
  case Nil
  then have "overlap_ms gf' = overlap_ms (overlap_run [] gf)" by simp
  then show ?case by blast
next
  case (Cons e es)
  show ?case
  proof (cases e)
    case (Push audio)
    with Cons.prems obtain g out o1 where c: "cleanstream_filter_audio gf audio = Inr (g, out)"
      and r: "run_trace rx beep_tone es g o1 = Inr (gf', outs')"
      by (auto split: sum.splits prod.splits filter_audio_result.splits)
    from Cons.IH [OF r] obtain ws where "overlap_ms gf' = overlap_ms (overlap_run ws g)"
      by blast
    also have "\<dots> = overlap_ms (overlap_run ws gf)"
      by (rule overlap_run_cong) (rule cleanstream_filter_audio_overlap [OF c])+
    finally show ?thesis by blast
  next
    case (Worker env)
    with Cons.prems obtain g where s: "whisper_loop_step rx beep_tone env gf = Inr g"
      and r: "run_trace rx beep_tone es g outs = Inr (gf', outs')"
      by (auto split: sum.splits)
    from Cons.IH [OF r] obtain ws where ws: "overlap_ms gf' = overlap_ms (overlap_run ws g)"
      by blast
    show ?thesis
    proof (cases "window_ready gf")
      case False
      with s have "g = gf" by (simp add: whisper_loop_step_def)
      with ws show ?thesis by blast
    next
      case True
      with s have p: "process_audio_from_buffer rx beep_tone env gf = Inr g"
        by (simp add: whisper_loop_step_def)
      from process_overlap_ms [OF p] obtain num sk
        where o: "overlap_ms g = overlap_ms (adapt_overlap (duration env) num sk gf)"
        by blast
      have "overlap_ms (overlap_run ws g)
              = overlap_ms (overlap_run ws (adapt_overlap (duration env) num sk gf))"
        by (rule overlap_run_cong)
           (simp_all add: o process_sample_rate [OF p] adapt_overlap_sample_rate)
      with ws have "overlap_ms gf' = overlap_ms (overlap_run ((duration env, num, sk) # ws) gf)"
        by simp
      then show ?thesis by blast
    qed
  qed
qed

text \<open>
  Claim C7. \<open>overlap_ms\<close> is said to stay within 100 and three quarters of the
  window's new-data duration in every reachable state, starting from 340, the decrease
  step never wrapping. The host queues a packet of 48 frames (1 ms at 48 kHz) and a
  packet of 48450 frames. The first window needs 48480 new frames and the two packets
  hold 48498, so the window takes the first packet only: its new-data duration is
  1 ms. Processed within 1 ms, it sets \<open>overlap_ms\<close> to \<open>min (350, 0) = 0\<close>. After
  one more packet the next window takes 48450 frames (1009 ms) and 1500 ms to process:
  \<open>0 - 10\<close> wraps to \<open>2\<^sup>6\<^sup>4 - 10\<close>, and that is the new \<open>overlap_ms\<close>.
\<close>

theorem overlap_ms_falls_to_zero_and_wraps:
  "map_sum id (overlap_ms \<circ> fst)
     (run_trace demo_regex sine_tone
        [Push (demo_packet 48 1), Push (demo_packet 48450 2),
         Worker (demo_env (WhisperResult 0 []) 1)] demo_gf []) = Inr 0
   \<and> map_sum id (overlap_ms \<circ> fst)
     (run_trace demo_regex sine_tone
        [Push (demo_packet 48 1), Push (demo_packet 48450 2),
         Worker (demo_env (WhisperResult 0 []) 1),
         Push (demo_packet 48450 3),
         Worker (demo_env (WhisperResult 0 []) 1500)] demo_gf [])
     = Inr 18446744073709551606"
  by (simp add: eval_defs)

text \<open>
  Claim C7, amended. Starting from 340 ms, \<open>overlap_ms\<close> never drops below 100 over
  any sequence of windows in which every window that takes the increase step (processed
  in time, inference not skipped) has three quarters of its new-data duration at
  least 100 ms; on such a sequence a decrease step computes
  \<open>max (overlap_ms - 10, 100)\<close> without wrapping. Right after an increase step,
  \<open>overlap_ms\<close> is at most three quarters (rounded down) of that window's new-data
  duration.
\<close>

theorem overlap_ms_bounds:
  assumes "overlap_ms gf = 340"
    and "\<forall>(dur, num, sk) \<in> set ws.
           \<not> uint (new_frames_from_infos_ms num (sample_rate gf)) < dur \<and> \<not> sk
             \<longrightarrow> 100 \<le> three_quarters_ms (new_frames_from_infos_ms num (sample_rate gf))"
  shows "100 \<le> overlap_ms (overlap_run ws gf)
    \<and> (\<forall>pre dur num sk. ws = pre @ [(dur, num, sk)]
           \<and> uint (new_frames_from_infos_ms num (sample_rate gf)) < dur
         \<longrightarrow> 10 \<le> overlap_ms (overlap_run pre gf)
             \<and> overlap_ms (overlap_run ws gf) = max (overlap_ms (overlap_run pre gf) - 10) 100)
    \<and> (\<forall>pre dur num. ws = pre @ [(dur, num, False)]
           \<and> \<not> uint (new_frames_from_infos_ms num (sample_rate gf)) < dur
         \<longrightarrow> overlap_ms (overlap_run ws gf)
               \<le> three_quarters_ms (new_frames_from_infos_ms num (sample_rate gf)))"
proof -
  have lower: "100 \<le> overlap_ms (overlap_run ws gf)"
    using overlap_run_invariant [of gf ws] assms by simp
  have decrease: "10 \<le> overlap_ms (overlap_run pre gf)
             \<and> overlap_ms (overlap_run ws gf) = max (overlap_ms (overlap_run pre gf) - 10) 100"
    if ws: "ws = pre @ [(dur, num, sk)]"
      and late: "uint (new_frames_from_infos_ms num (sample_rate gf)) < dur" for pre dur num sk
  proof -
    have "100 \<le> overlap_ms (overlap_run pre gf)"
      using overlap_run_invariant [of gf pre] assms ws by simp
    then have "10 \<le> overlap_ms (overlap_run pre gf)"
      by (simp add: word_le_nat_alt)
    moreover have "overlap_ms (overlap_run ws gf) = max (overlap_ms (overlap_run pre gf) - 10) 100"
      using late
      by (simp add: ws overlap_run_snoc adapt_overlap_def Let_def overlap_run_sample_rate)
    ultimately show ?thesis by simp
  qed
  have increase: "overlap_ms (overlap_run ws gf)
               \<le> three_quarters_ms (new_frames_from_infos_ms num (sample_rate gf))"
    if "ws = pre @ [(dur, num, False)]"
      and "\<not> uint (new_frames_from_infos_ms num (sample_rate gf)) < dur" for pre dur num
    using that adapt_overlap_increase [of num "overlap_run pre gf" dur False]
    by (simp add: overlap_run_snoc overlap_run_sample_rate)
  show ?thesis using lower decrease increase by blast
qed

theorem overlap_ms_bounds_witness:
  "overlap_ms demo_gf = 340
   \<and> 100 \<le> three_quarters_ms (new_frames_from_infos_ms 48480 (sample_rate demo_gf))
   \<and> 100 \<le> three_quarters_ms (new_frames_from_infos_ms 24240 (sample_rate demo_gf))
   \<and> overlap_run [(1200, 48480, False), (100, 24240, False)] demo_gf
       = overlap_run ([(1200, 48480, False)] @ [(100, 24240, False)]) demo_gf
   \<and> 100 \<le> overlap_ms (overlap_run [(1200, 48480, False), (100, 24240, False)] demo_gf)
   \<and> overlap_ms (overlap_run [(1200, 48480, False), (100, 24240, False)] demo_gf)
       \<le> three_quarters_ms (new_frames_from_infos_ms 24240 (sample_rate demo_gf))
   \<and> overlap_ms (overlap_run [(1200, 48480, False)] demo_gf)
       = max (overlap_ms (overlap_run [] demo_gf) - 10) 100"
proof -
  have h1: "overlap_ms demo_gf = 340" by (simp add: demo_gf_def)
  have q1: "three_quarters_ms (new_frames_from_infos_ms 48480 (sample_rate demo_gf)) = 757"
    by (simp add: demo_gf_def new_frames_from_infos_ms_def three_quarters_ms_def)
  have q2: "three_quarters_ms (new_frames_from_infos_ms 24240 (sample_rate demo_gf)) = 378"
    by (simp add: demo_gf_def new_frames_from_infos_ms_def three_quarters_ms_def)
  have n1: "uint (new_frames_from_infos_ms 48480 (sample_rate demo_gf)) = 1010"
    by (simp add: demo_gf_def new_frames_from_infos_ms_def)
  have n2: "uint (new_frames_from_infos_ms 24240 (sample_rate demo_gf)) = 505"
    by (simp add: demo_gf_def new_frames_from_infos_ms_def)
  have h2: "\<forall>(dur, num, sk) \<in> set [(1200, 48480, False), (100, 24240, False)].
           \<not> uint (new_frames_from_infos_ms num (sample_rate demo_gf)) < dur \<and> \<not> sk
             \<longrightarrow> 100 \<le> three_quarters_ms (new_frames_from_infos_ms num (sample_rate demo_gf))"
    by (simp add: q1 q2)
  have h3: "\<forall>(dur, num, sk) \<in> set [(1200, 48480, False)].
           \<not> uint (new_frames_from_infos_ms num (sample_rate demo_gf)) < dur \<and> \<not> sk
             \<longrightarrow> 100 \<le> three_quarters_ms (new_frames_from_infos_ms num (sample_rate demo_gf))"
    by (simp add: q1)
  note two = overlap_ms_bounds [OF h1 h2]
  note one = overlap_ms_bounds [OF h1 h3]
  have a: "100 \<le> overlap_ms (overlap_run [(1200, 48480, False), (100, 24240, False)] demo_gf)"
    using two by (rule conjunct1)
  have b: "overlap_ms (overlap_run [(1200, 48480, False), (100, 24240, False)] demo_gf)
       \<le> three_quarters_ms (new_frames_from_infos_ms 24240 (sample_rate demo_gf))"
    using two [THEN conjunct2, THEN conjunct2, rule_format, of "[(1200, 48480, False)]" 100 24240]
    by (simp add: n2)
  have c: "overlap_ms (overlap_run [(1200, 48480, False)] demo_gf)
       = max (overlap_ms (overlap_run [] demo_gf) - 10) 100"
    using one [THEN conjunct2, THEN conjunct1, rule_format, of "[]" 1200 48480 False]
    by (simp add: n1)
  show ?thesis using h1 a b c by (simp add: q1 q2)
qed

section \<open>A recogniser call that fails\<close>

text \<open>
  Claim C8. For every window in which the recogniser call returns a non-zero result
  code, the classifier returns \<open>UNKNOWN\<close>, no filler or beep transformation is
  applied, and the segment processor still publishes the packet of the window with
  the snapshot samples unmodified: the frames and the timestamp are emitted exactly
  as if the classification were \<open>SPEECH\<close>.
\<close>

theorem nonzero_result_publishes_unmodified:
  assumes "code \<noteq> 0" and "whisper_outcome env = WhisperResult code text"
    and "assemble_window gf = Inr (g1, num, ts)" and "sample_rate gf \<noteq> 0"
  shows "run_whisper_inference rx g (WhisperResult code text) = (DETECTION_RESULT_UNKNOWN, g)
    \<and> (case process_audio_from_buffer rx beep_tone env gf of
          Inl f \<Rightarrow> False
        | Inr gf' \<Rightarrow> published_unmodified g1 num ts gf')
    \<and> (fst (run_whisper_inference rx (snapshot_output g1) outcome') = DETECTION_RESULT_SPEECH
        \<longrightarrow> process_audio_from_buffer rx beep_tone (env\<lparr>whisper_outcome := outcome'\<rparr>) gf
            = process_audio_from_buffer rx beep_tone env gf)"
proof -
  have rate: "sample_rate g1 \<noteq> 0" using assms by (simp add: assemble_window_fields)
  have unk: "\<And>g. run_whisper_inference rx g (WhisperResult code text)
                  = (DETECTION_RESULT_UNKNOWN, g)"
    using assms(1) by (rule run_whisper_inference_nonzero)
  have p: "process_audio_from_buffer rx beep_tone env gf =
           Inr (adapt_overlap (duration env) num (vad_enabled g1 \<and> \<not> vad_speech env)
                  (publish_output num ts (snapshot_output g1)))"
    by (rule process_no_transformation [OF assms(3) rate, where r = DETECTION_RESULT_UNKNOWN])
       (simp add: assms(2) unk)
  have q: "process_audio_from_buffer rx beep_tone (env\<lparr>whisper_outcome := outcome'\<rparr>) gf =
           Inr (adapt_overlap (duration env) num (vad_enabled g1 \<and> \<not> vad_speech env)
                  (publish_output num ts (snapshot_output g1)))"
    if s: "fst (run_whisper_inference rx (snapshot_output g1) outcome') = DETECTION_RESULT_SPEECH"
  proof -
    have "snd (run_whisper_inference rx (snapshot_output g1) outcome') = snapshot_output g1"
      using s by (intro run_whisper_inference_state) simp
    with s have "run_whisper_inference rx (snapshot_output g1) outcome'
                 = (DETECTION_RESULT_SPEECH, snapshot_output g1)"
      by (metis prod.collapse)
    then show ?thesis
      using process_no_transformation [OF assms(3) rate, where r = DETECTION_RESULT_SPEECH
          and env = "env\<lparr>whisper_outcome := outcome'\<rparr>" and rx = rx and beep_tone = beep_tone]
      by simp
  qed
  show ?thesis
    using unk p q by (simp add: published_unmodified_snapshot)
qed

theorem nonzero_result_publishes_unmodified_witness:
  "(7 :: int) \<noteq> 0
   \<and> assemble_window demo_queued = Inr (demo_staged, 48480, 505000000)
   \<and> sample_rate demo_queued \<noteq> 0
   \<and> fst (run_whisper_inference demo_regex (snapshot_output demo_staged)
            (WhisperResult 0 ''Hello ''))
       = DETECTION_RESULT_SPEECH
   \<and> run_whisper_inference demo_regex demo_queued (WhisperResult 7 '' Um...  '')
       = (DETECTION_RESULT_UNKNOWN, demo_queued)
   \<and> (case process_audio_from_buffer demo_regex sine_tone
              (demo_env (WhisperResult 7 '' Um...  '') 100) demo_queued of
          Inl f \<Rightarrow> False
        | Inr gf' \<Rightarrow> published_unmodified demo_staged 48480 505000000 gf')
   \<and> process_audio_from_buffer demo_regex sine_tone
        ((demo_env (WhisperResult 7 '' Um...  '') 100)
           \<lparr>whisper_outcome := WhisperResult 0 ''Hello ''\<rparr>) demo_queued
       = process_audio_from_buffer demo_regex sine_tone
           (demo_env (WhisperResult 7 '' Um...  '') 100) demo_queued"
proof -
  have h1: "(7 :: int) \<noteq> 0" by simp
  have h2: "whisper_outcome (demo_env (WhisperResult 7 '' Um...  '') 100)
              = WhisperResult 7 '' Um...  ''"
    by (simp add: demo_env_def)
  have h4: "sample_rate demo_queued \<noteq> 0"
    by (simp add: demo_queued_def demo_gf_def)
  have s: "fst (run_whisper_inference demo_regex (snapshot_output demo_staged)
            (WhisperResult 0 ''Hello ''))
       = DETECTION_RESULT_SPEECH"
    by (simp add: demo_staged_def eval_defs)
  show ?thesis
    using nonzero_result_publishes_unmodified [OF h1 h2 demo_assemble h4,
        where rx = demo_regex and beep_tone = sine_tone and g = demo_queued
          and outcome' = "WhisperResult 0 ''Hello ''"] demo_assemble h4 s
    by simp
qed

section \<open>A packet across the window boundary\<close>

lemma drain_infos_straddle:
  assumes "\<forall>k. 0 < k \<and> k \<le> length acc \<longrightarrow> \<not> need < ucast (num + sum_frames (take k acc))"
    and "need < ucast (num + sum_frames acc + frames p)"
  shows "fst (drain_infos (acc @ p # rest) num ts need) = p # rest
       \<and> fst (snd (drain_infos (acc @ p # rest) num ts need)) = num + sum_frames acc"
  using assms
proof (induction acc arbitrary: num ts)
  case Nil
  then show ?case by (simp add: sum_frames_def Let_def)
next
  case (Cons a acc)
  have first: "\<not> need < ucast (num + frames a)"
    using Cons.prems(1) [rule_format, of 1] by (simp add: sum_frames_def)
  have others: "\<forall>k. 0 < k \<and> k \<le> length acc \<longrightarrow>
                \<not> need < ucast (num + frames a + sum_frames (take k acc))"
  proof (intro allI impI)
    fix k assume "0 < k \<and> k \<le> length acc"
    then show "\<not> need < ucast (num + frames a + sum_frames (take k acc))"
      using Cons.prems(1) [rule_format, of "Suc k"] by (simp add: sum_frames_def add.assoc)
  qed
  have straddle: "need < ucast (num + frames a + sum_frames acc + frames p)"
    using Cons.prems(2) by (simp add: sum_frames_def add.assoc)
  show ?case
    using first Cons.IH [OF others straddle] by (simp add: Let_def sum_frames_def add.assoc)
qed

text \<open>
  Claim C9. During the assembly, when popping the next packet info would make the
  accumulated frame count exceed the target, that info is pushed back to the front of
  the input info ring with its frames and timestamp unchanged, its frames are not
  counted in \<open>num_new_frames\<close>, and the loop stops; the packet contributes no samples
  to the window and is available intact for the next one. Here the ring holds the
  accepted infos \<open>acc\<close>, then the info \<open>p\<close>, then \<open>rest\<close>; the counts are those of the
  program (32 bits, compared with the target as \<^verbatim>\<open>size_t\<close>).
\<close>

theorem straddling_packet_pushed_back:
  assumes "info_buffer gf = acc @ p # rest"
    and "\<forall>k. 0 < k \<and> k \<le> length acc
             \<longrightarrow> \<not> how_many_frames_needed gf < ucast (sum_frames (take k acc))"
    and "how_many_frames_needed gf < ucast (sum_frames acc + frames p)"
    and "process_audio_from_buffer rx beep_tone env gf = Inr gf'"
  shows "fst (drain_infos (info_buffer gf) 0 0 (how_many_frames_needed gf)) = p # rest
    \<and> fst (snd (drain_infos (info_buffer gf) 0 0 (how_many_frames_needed gf))) = sum_frames acc
    \<and> info_buffer gf' = p # rest
    \<and> map input_buffers (chans gf')
        = map (\<lambda>ch. drop (unat (sum_frames acc)) (input_buffers ch)) (chans gf)
    \<and> frames (last (info_out_buffer gf')) = sum_frames acc"
proof -
  have d: "fst (drain_infos (acc @ p # rest) 0 0 (how_many_frames_needed gf)) = p # rest
       \<and> fst (snd (drain_infos (acc @ p # rest) 0 0 (how_many_frames_needed gf)))
           = 0 + sum_frames acc"
    by (rule drain_infos_straddle) (use assms(2,3) in simp_all)
  from assms(4) obtain g1 num ts g3 where a: "assemble_window gf = Inr (g1, num, ts)"
    and r: "gf' = adapt_overlap (duration env) num (vad_enabled g1 \<and> \<not> vad_speech env)
                 (publish_output num ts g3)"
    and f: "info_buffer g3 = info_buffer g1"
      "map input_buffers (chans g3) = map input_buffers (chans g1)"
    by (rule process_result)
  have n: "num = sum_frames acc" and i: "info_buffer g1 = p # rest"
    using assemble_window_result(1,2) [OF a] d assms(1) by simp_all
  have "info_buffer gf' = p # rest"
    using r f i by (simp add: adapt_overlap_buffers publish_output_def)
  moreover have "map input_buffers (chans gf')
        = map (\<lambda>ch. drop (unat (sum_frames acc)) (input_buffers ch)) (chans gf)"
    using r f assemble_window_result(4) [OF a] n
    by (simp add: adapt_overlap_buffers publish_output_def comp_def)
  moreover have "frames (last (info_out_buffer gf')) = sum_frames acc"
    using r n by (simp add: adapt_overlap_buffers publish_output_def)
  ultimately show ?thesis using d assms(1) by simp
qed

theorem straddling_packet_pushed_back_witness:
  "info_buffer demo_queued
     = [\<lparr>frames = 24240, timestamp = 505000000\<rparr>, \<lparr>frames = 24240, timestamp = 1010000000\<rparr>]
       @ \<lparr>frames = 24240, timestamp = 1515000000\<rparr> # []
   \<and> how_many_frames_needed demo_queued = 48480
   \<and> sum_frames [\<lparr>frames = 24240, timestamp = 505000000\<rparr>,
                  \<lparr>frames = 24240, timestamp = 1010000000\<rparr>] = 48480
   \<and> (case process_audio_from_buffer demo_regex sine_tone
              (demo_env (WhisperResult 0 ''Hello '') 100) demo_queued of
          Inl f \<Rightarrow> False
        | Inr gf' \<Rightarrow>
            info_buffer gf' = [\<lparr>frames = 24240, timestamp = 1515000000\<rparr>]
            \<and> map input_buffers (chans gf') = [replicate 24240 4]
            \<and> frames (last (info_out_buffer gf')) = 48480)"
proof -
  define acc where "acc = [\<lparr>frames = 24240, timestamp = 505000000 :: u64\<rparr>,
                           \<lparr>frames = 24240, timestamp = 1010000000\<rparr>]"
  define p where "p = \<lparr>frames = 24240, timestamp = 1515000000 :: u64\<rparr>"
  have h1: "info_buffer demo_queued = acc @ p # []"
    by (simp add: demo_queued_def acc_def p_def)
  have need: "how_many_frames_needed demo_queued = 48480"
    by (simp add: demo_queued_def demo_gf_def how_many_frames_needed_def)
  have sums: "sum_frames (take k acc) = (if k = 0 then 0 else if k = 1 then 24240 else 48480)"
    for k
    by (cases k; cases "k - 1") (simp_all add: acc_def sum_frames_def)
  have h2: "\<forall>k. 0 < k \<and> k \<le> length acc
             \<longrightarrow> \<not> how_many_frames_needed demo_queued < ucast (sum_frames (take k acc))"
    by (simp add: need sums)
  have total: "sum_frames acc = 48480" by (simp add: acc_def sum_frames_def)
  have h3: "how_many_frames_needed demo_queued < ucast (sum_frames acc + frames p)"
    by (simp add: need total p_def)
  obtain gf' where h4: "process_audio_from_buffer demo_regex sine_tone
              (demo_env (WhisperResult 0 ''Hello '') 100) demo_queued = Inr gf'"
    by (simp add: demo_queued_def eval_defs)
  have i: "map input_buffers (chans demo_queued)
             = [replicate 24240 2 @ replicate 24240 3 @ replicate 24240 4]"
    by (simp add: demo_queued_def)
  show ?thesis
    using straddling_packet_pushed_back [OF h1 h2 h3 h4] h1 need total h4
    by (simp add: acc_def p_def demo_queued_def)
qed

section \<open>A classifier without recogniser\<close>

text \<open>
  Claim C10. Whenever the classifier is invoked while the recogniser context is null,
  it returns \<open>UNKNOWN\<close> without attempting the recogniser call (the result does not
  depend on any outcome of the call) and without modifying any buffer or window state
  (the state is returned as it was), so a window processed in that state is still
  published with its unmodified snapshot.
\<close>

theorem null_context_returns_unknown:
  assumes "\<not> whisper_context gf"
    and "assemble_window gf = Inr (g1, num, ts)" and "sample_rate gf \<noteq> 0"
  shows "run_whisper_inference rx gf outcome = (DETECTION_RESULT_UNKNOWN, gf)
    \<and> run_whisper_inference rx (snapshot_output g1) (whisper_outcome env)
        = (DETECTION_RESULT_UNKNOWN, snapshot_output g1)
    \<and> (case process_audio_from_buffer rx beep_tone env gf of
          Inl f \<Rightarrow> False
        | Inr gf' \<Rightarrow> published_unmodified g1 num ts gf')"
proof -
  have rate: "sample_rate g1 \<noteq> 0" using assms by (simp add: assemble_window_fields)
  have ctx: "\<not> whisper_context (snapshot_output g1)"
    using assms by (simp add: snapshot_output_fields assemble_window_fields)
  have unk: "run_whisper_inference rx (snapshot_output g1) (whisper_outcome env)
        = (DETECTION_RESULT_UNKNOWN, snapshot_output g1)"
    using ctx by (simp add: run_whisper_inference_def)
  have p: "process_audio_from_buffer rx beep_tone env gf =
           Inr (adapt_overlap (duration env) num (vad_enabled g1 \<and> \<not> vad_speech env)
                  (publish_output num ts (snapshot_output g1)))"
    by (rule process_no_transformation [OF assms(2) rate, where r = DETECTION_RESULT_UNKNOWN])
       (simp add: unk)
  show ?thesis
    using assms(1) unk p
    by (simp add: published_unmodified_snapshot run_whisper_inference_def)
qed

theorem null_context_returns_unknown_witness:
  "\<not> whisper_context (demo_queued\<lparr>whisper_context := False\<rparr>)
   \<and> assemble_window (demo_queued\<lparr>whisper_context := False\<rparr>)
       = Inr (demo_staged\<lparr>whisper_context := False\<rparr>, 48480, 505000000)
   \<and> sample_rate (demo_queued\<lparr>whisper_context := False\<rparr>) \<noteq> 0
   \<and> run_whisper_inference demo_regex (demo_queued\<lparr>whisper_context := False\<rparr>)
        (WhisperResult 0 '' Um...  '')
       = (DETECTION_RESULT_UNKNOWN, demo_queued\<lparr>whisper_context := False\<rparr>)
   \<and> (case process_audio_from_buffer demo_regex sine_tone
              (demo_env (WhisperResult 0 '' Um...  '') 100)
              (demo_queued\<lparr>whisper_context := False\<rparr>) of
          Inl f \<Rightarrow> False
        | Inr gf' \<Rightarrow>
            published_unmodified (demo_staged\<lparr>whisper_context := False\<rparr>) 48480 505000000 gf')"
proof -
  have h1: "\<not> whisper_context (demo_queued\<lparr>whisper_context := False\<rparr>)"
    by simp
  have h2: "assemble_window (demo_queued\<lparr>whisper_context := False\<rparr>)
       = Inr (demo_staged\<lparr>whisper_context := False\<rparr>, 48480, 505000000)"
    by (simp add: demo_queued_def demo_staged_def eval_defs)
  have h3: "sample_rate (demo_queued\<lparr>whisper_context := False\<rparr>) \<noteq> 0"
    by (simp add: demo_queued_def demo_gf_def)
  show ?thesis
    using null_context_returns_unknown [OF h1 h2 h3,
        where rx = demo_regex and beep_tone = sine_tone
          and outcome = "WhisperResult 0 '' Um...  ''"
          and env = "demo_env (WhisperResult 0 '' Um...  '') 100"] h2 h3
    by simp
qed

end
